theory Spec2Isabelle
  imports Complex_Main "HOL-Library.Word" "HOL-Library.Log_Nat"
begin

unbundle bit_operations_syntax

section \<open>Data model of ntrpRNG v1.3.0\<close>

text \<open>
  A JavaScript number stored in a pool is represented by its IEEE-754 binary64 encoding,
  a 64-bit word; a \<open>Uint8Array\<close> is a list of bytes.  The per-category counters only ever
  grow from 0 in steps of 1, 2 or 3, so they are natural numbers.
\<close>

type_synonym byte = "8 word"
type_synonym float64 = "64 word"

record event_counters =
  mouse :: nat
  keyboard :: nat
  touch :: nat
  scroll :: nat
  other :: nat

datatype target = Document | Window

text \<open>
  The fields shared by \<open>ntrpRNG\<close> and the baseline \<open>cgRNDV\<close>, which keeps the same
  fields "for API compatibility".
\<close>

record rng_base =
  iterations :: nat
  saltSize :: nat
  autoCollect :: bool
  minEvents :: nat
  isCollecting :: bool
  entropyPool :: "float64 list"
  timerDeltas :: "float64 list"
  eventCount :: event_counters

text \<open>
  An \<open>ntrpRNG\<close> instance adds the clock reading, the three timer handles and the
  listeners it has registered on \<open>document\<close> and \<open>window\<close>.
\<close>

record ntrpRNG = rng_base +
  lastTimestamp :: float64
  timerId1 :: "nat option"
  timerId2 :: "nat option"
  rafId :: "nat option"
  listeners :: "(target \<times> string) list"

text \<open>The constructor's \<open>options\<close> object; \<open>None\<close> is an absent (undefined) property.\<close>

record options =
  opt_iterations :: "nat option"
  opt_saltSize :: "nat option"
  opt_autoCollect :: "bool option"
  opt_minEvents :: "nat option"

text \<open>
  What the host answers while collection is started: the reading of \<open>performance.now()\<close>,
  whether \<open>window.DeviceMotionEvent\<close> exists, and the handles returned by
  \<open>requestAnimationFrame\<close>, \<open>setInterval\<close> and \<open>setTimeout\<close>.
\<close>

record host =
  perfNow :: float64
  hasDeviceMotionEvent :: bool
  rafHandle :: nat
  intervalHandle :: nat
  timeoutHandle :: nat

text \<open>The four anti-tampering constants at the top of the file.\<close>

record constants =
  REQUIRED_MIN_EVENTS :: nat
  VERIFY_A :: nat
  VERIFY_B :: nat
  VERIFY_C :: nat

definition builtin :: constants where
  "builtin = \<lparr>REQUIRED_MIN_EVENTS = 500, VERIFY_A = 0x1F4, VERIFY_B = 500, VERIFY_C = 250 * 2\<rparr>"

text \<open>
  The two errors the source throws, and the \<open>QuotaExceededError\<close> with which the host's
  \<open>crypto.getRandomValues\<close> rejects an array of more than 65536 bytes.
\<close>

datatype error =
  IntegrityError
  | InsufficientEntropy nat nat nat nat
  | QuotaExceededError

definition tampered :: "constants \<Rightarrow> bool" where
  "tampered c \<longleftrightarrow>
     REQUIRED_MIN_EVENTS c \<noteq> VERIFY_A c \<or>
     REQUIRED_MIN_EVENTS c \<noteq> VERIFY_B c \<or>
     REQUIRED_MIN_EVENTS c \<noteq> VERIFY_C c"

definition zero_counters :: event_counters where
  "zero_counters = \<lparr>mouse = 0, keyboard = 0, touch = 0, scroll = 0, other = 0\<rparr>"

section \<open>Collection control\<close>

definition truthy_handle :: "nat option \<Rightarrow> bool" where
  "truthy_handle h = (case h of None \<Rightarrow> False | Some n \<Rightarrow> n \<noteq> 0)"

definition startTimerJitter :: "host \<Rightarrow> ntrpRNG \<Rightarrow> ntrpRNG" where
  "startTimerJitter h s =
     s\<lparr>rafId := Some (rafHandle h),
       timerId1 := Some (intervalHandle h),
       timerId2 := Some (timeoutHandle h)\<rparr>"

definition stopTimerJitter :: "ntrpRNG \<Rightarrow> ntrpRNG" where
  "stopTimerJitter s =
     (let s1 = (if truthy_handle (timerId1 s) then s\<lparr>timerId1 := None\<rparr> else s);
          s2 = (if truthy_handle (timerId2 s1) then s1\<lparr>timerId2 := None\<rparr> else s1)
      in if truthy_handle (rafId s2) then s2\<lparr>rafId := None\<rparr> else s2)"

definition base_listeners :: "(target \<times> string) list" where
  "base_listeners =
     [(Document, ''mousemove''), (Document, ''mousedown''), (Document, ''keydown''),
      (Document, ''touchstart''), (Document, ''touchmove''), (Window, ''scroll'')]"

definition wanted_listeners :: "bool \<Rightarrow> (target \<times> string) list" where
  "wanted_listeners dm =
     (if dm then base_listeners @ [(Window, ''devicemotion'')] else base_listeners)"

definition startCollecting :: "host \<Rightarrow> ntrpRNG \<Rightarrow> ntrpRNG" where
  "startCollecting h s =
     (if isCollecting s then s
      else startTimerJitter h
             (s\<lparr>isCollecting := True,
                listeners := fold List.insert (wanted_listeners (hasDeviceMotionEvent h))
                               (listeners s)\<rparr>))"

definition stopCollecting :: "bool \<Rightarrow> ntrpRNG \<Rightarrow> ntrpRNG" where
  "stopCollecting dm s =
     (if \<not> isCollecting s then s
      else stopTimerJitter
             (s\<lparr>isCollecting := False,
                listeners := fold removeAll (wanted_listeners dm) (listeners s)\<rparr>))"

definition clearEntropy :: "ntrpRNG \<Rightarrow> ntrpRNG" where
  "clearEntropy s = s\<lparr>entropyPool := [], timerDeltas := [], eventCount := zero_counters\<rparr>"

section \<open>Event handlers and pool caps\<close>

text \<open>
  \<open>x || 0\<close> on a numeric property: an absent value, \<open>+0\<close>, \<open>-0\<close> and \<open>NaN\<close> are falsy
  and give the number 0; every other number is kept.
\<close>

definition js_or0 :: "float64 option \<Rightarrow> float64" where
  "js_or0 v =
     (case v of
        None \<Rightarrow> 0
      | Some w \<Rightarrow>
          (let m = w AND 0x7FFFFFFFFFFFFFFF
           in if m = 0 \<or> 0x7FF0000000000000 < m then 0 else w))"

text \<open>\<open>xs.slice(-n)\<close>: the last \<open>n\<close> elements, or all of them when there are fewer.\<close>

definition slice_last :: "nat \<Rightarrow> 'a list \<Rightarrow> 'a list" where
  "slice_last n xs = drop (length xs - n) xs"

definition addEntropy :: "float64 list \<Rightarrow> ntrpRNG \<Rightarrow> ntrpRNG" where
  "addEntropy vals s =
     (let pool = fold (\<lambda>v p. p @ [v]) vals (entropyPool s)
      in s\<lparr>entropyPool := (if length pool > 5000 then slice_last 2500 pool else pool)\<rparr>)"

text \<open>
  \<open>fsub\<close> is the host's floating-point subtraction; \<open>now\<close> and \<open>dateNow\<close> are the
  readings of \<open>performance.now()\<close> and \<open>Date.now()\<close>.
\<close>

definition collectTimerDelta ::
  "(float64 \<Rightarrow> float64 \<Rightarrow> float64) \<Rightarrow> float64 \<Rightarrow> float64 \<Rightarrow> ntrpRNG \<Rightarrow> ntrpRNG" where
  "collectTimerDelta fsub now dateNow s =
     (let delta = fsub now (lastTimestamp s);
          deltas = timerDeltas s @ [delta, dateNow]
      in s\<lparr>lastTimestamp := now,
           timerDeltas := (if length deltas > 1000 then slice_last 500 deltas else deltas)\<rparr>)"

datatype touch_point =
  TouchPoint float64 float64 "float64 option" "float64 option" "float64 option"

datatype acceleration = Acceleration "float64 option" "float64 option" "float64 option"

datatype rotation = Rotation "float64 option" "float64 option" "float64 option"

text \<open>
  What the host delivers to the instance: the seven DOM events with the properties the
  handlers read (each preceded by the reading of \<open>performance.now()\<close> the handler takes),
  and the three timer callbacks with their clock readings and, for the two
  self-rescheduling ones, the new handle.
\<close>

datatype event =
  MouseMove float64 float64 float64 "float64 option" "float64 option" float64 float64
  | MouseDown float64 float64 float64 float64 float64
  | KeyDown float64 float64 float64 bool
  | TouchStart "(float64 \<times> touch_point) list"
  | TouchMove "(float64 \<times> touch_point) list"
  | Scroll float64 float64 float64 float64 float64
  | DeviceMotion float64 "acceleration option" "rotation option"
  | RafTick float64 float64 nat
  | IntervalTick float64 float64
  | TimeoutTick float64 float64 nat

definition bump_mouse :: "nat \<Rightarrow> ntrpRNG \<Rightarrow> ntrpRNG" where
  "bump_mouse w s = s\<lparr>eventCount := (eventCount s)\<lparr>mouse := mouse (eventCount s) + w\<rparr>\<rparr>"

definition bump_keyboard :: "nat \<Rightarrow> ntrpRNG \<Rightarrow> ntrpRNG" where
  "bump_keyboard w s =
     s\<lparr>eventCount := (eventCount s)\<lparr>keyboard := keyboard (eventCount s) + w\<rparr>\<rparr>"

definition bump_touch :: "nat \<Rightarrow> ntrpRNG \<Rightarrow> ntrpRNG" where
  "bump_touch w s = s\<lparr>eventCount := (eventCount s)\<lparr>touch := touch (eventCount s) + w\<rparr>\<rparr>"

definition bump_scroll :: "nat \<Rightarrow> ntrpRNG \<Rightarrow> ntrpRNG" where
  "bump_scroll w s = s\<lparr>eventCount := (eventCount s)\<lparr>scroll := scroll (eventCount s) + w\<rparr>\<rparr>"

definition bump_other :: "nat \<Rightarrow> ntrpRNG \<Rightarrow> ntrpRNG" where
  "bump_other w s = s\<lparr>eventCount := (eventCount s)\<lparr>other := other (eventCount s) + w\<rparr>\<rparr>"

definition onMouseMove ::
  "float64 \<Rightarrow> float64 \<Rightarrow> float64 \<Rightarrow> float64 option \<Rightarrow> float64 option \<Rightarrow> float64 \<Rightarrow> float64 \<Rightarrow>
   ntrpRNG \<Rightarrow> ntrpRNG" where
  "onMouseMove now clientX clientY movementX movementY screenX screenY s =
     bump_mouse 1
       (addEntropy [now, clientX, clientY, js_or0 movementX, js_or0 movementY, screenX, screenY] s)"

definition onMouseDown ::
  "float64 \<Rightarrow> float64 \<Rightarrow> float64 \<Rightarrow> float64 \<Rightarrow> float64 \<Rightarrow> ntrpRNG \<Rightarrow> ntrpRNG" where
  "onMouseDown now clientX clientY button buttons s =
     bump_mouse 2 (addEntropy [now, clientX, clientY, button, buttons] s)"

text \<open>\<open>e.repeat ? 1 : 0\<close>: the numbers 1 and 0 in binary64.\<close>

definition onKeyDown :: "float64 \<Rightarrow> float64 \<Rightarrow> float64 \<Rightarrow> bool \<Rightarrow> ntrpRNG \<Rightarrow> ntrpRNG" where
  "onKeyDown now keyCode which repeat s =
     bump_keyboard 3
       (addEntropy [now, keyCode, which, (if repeat then 0x3FF0000000000000 else 0)] s)"

fun touchStart_values :: "float64 \<times> touch_point \<Rightarrow> float64 list" where
  "touchStart_values (now, TouchPoint clientX clientY force radiusX radiusY) =
     [now, clientX, clientY, js_or0 force, js_or0 radiusX, js_or0 radiusY]"

fun touchMove_values :: "float64 \<times> touch_point \<Rightarrow> float64 list" where
  "touchMove_values (now, TouchPoint clientX clientY force radiusX radiusY) =
     [now, clientX, clientY]"

definition onTouchStart :: "(float64 \<times> touch_point) list \<Rightarrow> ntrpRNG \<Rightarrow> ntrpRNG" where
  "onTouchStart touches s =
     bump_touch 2 (fold (\<lambda>t. addEntropy (touchStart_values t)) touches s)"

definition onTouchMove :: "(float64 \<times> touch_point) list \<Rightarrow> ntrpRNG \<Rightarrow> ntrpRNG" where
  "onTouchMove touches s =
     bump_touch 1 (fold (\<lambda>t. addEntropy (touchMove_values t)) touches s)"

definition onScroll ::
  "float64 \<Rightarrow> float64 \<Rightarrow> float64 \<Rightarrow> float64 \<Rightarrow> float64 \<Rightarrow> ntrpRNG \<Rightarrow> ntrpRNG" where
  "onScroll now scrollX scrollY innerWidth innerHeight s =
     bump_scroll 1 (addEntropy [now, scrollX, scrollY, innerWidth, innerHeight] s)"

fun rotation_values :: "rotation option \<Rightarrow> float64 list" where
  "rotation_values None = [0, 0, 0]"
| "rotation_values (Some (Rotation alpha beta gamma)) =
     [js_or0 alpha, js_or0 beta, js_or0 gamma]"

fun onDeviceMotion ::
  "float64 \<Rightarrow> acceleration option \<Rightarrow> rotation option \<Rightarrow> ntrpRNG \<Rightarrow> ntrpRNG" where
  "onDeviceMotion now None rotationRate s = s"
| "onDeviceMotion now (Some (Acceleration x y z)) rotationRate s =
     bump_other 2
       (addEntropy ([now, js_or0 x, js_or0 y, js_or0 z] @ rotation_values rotationRate) s)"

definition rafCollect ::
  "(float64 \<Rightarrow> float64 \<Rightarrow> float64) \<Rightarrow> float64 \<Rightarrow> float64 \<Rightarrow> nat \<Rightarrow> ntrpRNG \<Rightarrow> ntrpRNG" where
  "rafCollect fsub now dateNow handle s =
     (if \<not> isCollecting s then s
      else (collectTimerDelta fsub now dateNow s)\<lparr>rafId := Some handle\<rparr>)"

definition intervalCollect ::
  "(float64 \<Rightarrow> float64 \<Rightarrow> float64) \<Rightarrow> float64 \<Rightarrow> float64 \<Rightarrow> ntrpRNG \<Rightarrow> ntrpRNG" where
  "intervalCollect fsub now dateNow s =
     (if isCollecting s then collectTimerDelta fsub now dateNow s else s)"

definition recursiveTimeout ::
  "(float64 \<Rightarrow> float64 \<Rightarrow> float64) \<Rightarrow> float64 \<Rightarrow> float64 \<Rightarrow> nat \<Rightarrow> ntrpRNG \<Rightarrow> ntrpRNG" where
  "recursiveTimeout fsub now dateNow handle s =
     (if \<not> isCollecting s then s
      else (collectTimerDelta fsub now dateNow s)\<lparr>timerId2 := Some handle\<rparr>)"

fun deliver :: "(float64 \<Rightarrow> float64 \<Rightarrow> float64) \<Rightarrow> event \<Rightarrow> ntrpRNG \<Rightarrow> ntrpRNG" where
  "deliver fsub (MouseMove now cx cy mx my sx sy) s = onMouseMove now cx cy mx my sx sy s"
| "deliver fsub (MouseDown now cx cy b bs) s = onMouseDown now cx cy b bs s"
| "deliver fsub (KeyDown now kc wh rp) s = onKeyDown now kc wh rp s"
| "deliver fsub (TouchStart ts) s = onTouchStart ts s"
| "deliver fsub (TouchMove ts) s = onTouchMove ts s"
| "deliver fsub (Scroll now x y w h) s = onScroll now x y w h s"
| "deliver fsub (DeviceMotion now a r) s = onDeviceMotion now a r s"
| "deliver fsub (RafTick now d h) s = rafCollect fsub now d h s"
| "deliver fsub (IntervalTick now d) s = intervalCollect fsub now d s"
| "deliver fsub (TimeoutTick now d h) s = recursiveTimeout fsub now d h s"

definition run :: "(float64 \<Rightarrow> float64 \<Rightarrow> float64) \<Rightarrow> event list \<Rightarrow> ntrpRNG \<Rightarrow> ntrpRNG" where
  "run fsub evs s = fold (deliver fsub) evs s"

section \<open>Readiness and progress\<close>

definition getWeightedEventCount :: "ntrpRNG \<Rightarrow> nat" where
  "getWeightedEventCount s =
     mouse (eventCount s) + keyboard (eventCount s) + touch (eventCount s) +
     scroll (eventCount s) + other (eventCount s)"

definition hasMinimumEntropy :: "constants \<Rightarrow> ntrpRNG \<Rightarrow> error + bool" where
  "hasMinimumEntropy c s =
     (if tampered c \<or> minEvents s \<noteq> 500 then Inl IntegrityError
      else (let weightedEvents = getWeightedEventCount s
            in Inr (weightedEvents \<ge> 500 \<and> length (entropyPool s) > 0 \<and>
                    length (timerDeltas s) > 0)))"

text \<open>
  The percentage is a JavaScript number, computed as \<open>(currentEvents / 500) * 100\<close> in
  binary64 arithmetic: the division and the multiplication each return the exact result
  rounded to the nearest binary64 value, ties to the even significand.  A finite binary64
  value is represented by the rational number it denotes.  A value of magnitude at least
  \<open>2 ^ e\<close> and below \<open>2 ^ (e + 1)\<close> is a multiple of the quantum \<open>2 ^ (e - 52)\<close>, with
  \<open>e\<close> not below -1022 (the subnormal range shares the smallest quantum).  Overflow to
  Infinity is not represented; \<open>Math.min\<close> with 100 gives 100 there as it does for every
  finite value from 100 on.  An integer count below \<open>2 ^ 53\<close> is itself a binary64 value,
  so reading the counter involves no rounding.
\<close>

definition round_half_even :: "rat \<Rightarrow> int" where
  "round_half_even x =
     (let f = \<lfloor>x\<rfloor>; d = x - of_int f
      in if d < 1 / 2 then f else if 1 / 2 < d then f + 1 else if even f then f else f + 1)"

text \<open>For positive \<open>x\<close>, the \<open>e\<close> with \<open>2 ^ e \<le> x < 2 ^ (e + 1)\<close>.\<close>

definition binary64_exponent :: "rat \<Rightarrow> int" where
  "binary64_exponent x =
     (if 1 \<le> x then bitlen \<lfloor>x\<rfloor> - 1 else - bitlen (\<lceil>1 / x\<rceil> - 1))"

definition round_binary64 :: "rat \<Rightarrow> rat" where
  "round_binary64 x =
     (if x = 0 then 0
      else (let a = \<bar>x\<bar>;
                e = max (binary64_exponent a) (- 1022);
                q = 2 powi (e - 52)
            in sgn x * of_int (round_half_even (a / q)) * q))"

definition binary64_div :: "rat \<Rightarrow> rat \<Rightarrow> rat" where
  "binary64_div x y = round_binary64 (x / y)"

definition binary64_mul :: "rat \<Rightarrow> rat \<Rightarrow> rat" where
  "binary64_mul x y = round_binary64 (x * y)"

record progress =
  currentEvents :: nat
  requiredEvents :: nat
  percentage :: rat
  ready :: bool

definition getProgress :: "ntrpRNG \<Rightarrow> progress" where
  "getProgress s =
     (let currentEvents = getWeightedEventCount s
      in \<lparr>currentEvents = currentEvents,
          requiredEvents = 500,
          percentage = min 100 (binary64_mul (binary64_div (of_nat currentEvents) 500) 100),
          ready = (currentEvents \<ge> 500)\<rparr>)"

record stats =
  st_entropyPoolSize :: nat
  st_timerDeltasSize :: nat
  st_isCollecting :: bool
  st_eventCount :: event_counters
  st_totalEvents :: nat
  st_minEvents :: nat
  st_hasMinimumEntropy :: bool

definition getStats :: "constants \<Rightarrow> ntrpRNG \<Rightarrow> error + stats" where
  "getStats c s =
     (case hasMinimumEntropy c s of
        Inl e \<Rightarrow> Inl e
      | Inr b \<Rightarrow>
          Inr \<lparr>st_entropyPoolSize = length (entropyPool s),
               st_timerDeltasSize = length (timerDeltas s),
               st_isCollecting = isCollecting s,
               st_eventCount = eventCount s,
               st_totalEvents = getWeightedEventCount s,
               st_minEvents = minEvents s,
               st_hasMinimumEntropy = b\<rparr>)"

section \<open>Construction\<close>

text \<open>\<open>v || d\<close> on an optional count: absent and 0 are falsy.\<close>

definition js_or_default :: "nat option \<Rightarrow> nat \<Rightarrow> nat" where
  "js_or_default v d = (case v of None \<Rightarrow> d | Some n \<Rightarrow> if n = 0 then d else n)"

definition override_warning :: string where
  "override_warning = ''ntrpRNG: minEvents override ignored. Hardcoded to 500 for security.''"

text \<open>
  The constructor returns the instance together with the lines it wrote with
  \<open>console.warn\<close>, or the integrity error.
\<close>

definition constructor :: "constants \<Rightarrow> options \<Rightarrow> host \<Rightarrow> error + (ntrpRNG \<times> string list)" where
  "constructor c opts h =
     (if tampered c then Inl IntegrityError
      else
        (let warnings =
               (if opt_minEvents opts \<noteq> None \<and> opt_minEvents opts \<noteq> Some 500
                then [override_warning] else []);
             s = \<lparr>iterations = js_or_default (opt_iterations opts) 5000,
                  saltSize = js_or_default (opt_saltSize opts) 32,
                  autoCollect = (opt_autoCollect opts \<noteq> Some False),
                  minEvents = 500,
                  isCollecting = False,
                  entropyPool = [],
                  timerDeltas = [],
                  eventCount = zero_counters,
                  lastTimestamp = perfNow h,
                  timerId1 = None,
                  timerId2 = None,
                  rafId = None,
                  listeners = []\<rparr>
         in Inr (if autoCollect s then startCollecting h s else s, warnings)))"

section \<open>Serialization and hashing pipeline\<close>

text \<open>
  \<open>DataView.setFloat64(offset, value, false)\<close> stores the eight bytes of the binary64
  encoding, most significant byte first, at \<open>offset\<close>; \<open>TypedArray.set(source, offset)\<close>
  copies \<open>source\<close> to \<open>offset\<close>.  Both write inside the buffer at every call made here.
\<close>

definition float64_bytes :: "float64 \<Rightarrow> byte list" where
  "float64_bytes w =
     [ucast (drop_bit 56 w), ucast (drop_bit 48 w), ucast (drop_bit 40 w),
      ucast (drop_bit 32 w), ucast (drop_bit 24 w), ucast (drop_bit 16 w),
      ucast (drop_bit 8 w), ucast w]"

definition write_at :: "byte list \<Rightarrow> nat \<Rightarrow> byte list \<Rightarrow> byte list" where
  "write_at buf offset src = take offset buf @ src @ drop (offset + length src) buf"

definition setFloat64 :: "byte list \<Rightarrow> nat \<Rightarrow> float64 \<Rightarrow> byte list" where
  "setFloat64 view offset w = write_at view offset (float64_bytes w)"

function serialize_loop :: "float64 list \<Rightarrow> nat \<Rightarrow> byte list \<Rightarrow> byte list" where
  "serialize_loop floatArray i view =
     (if i < length floatArray
      then serialize_loop floatArray (i + 1) (setFloat64 view (i * 8) (floatArray ! i))
      else view)"
  by pat_completeness auto
termination
  by (relation "measure (\<lambda>(floatArray, i, view). length floatArray - i)") auto

declare serialize_loop.simps [simp del]

definition serializeFloats :: "float64 list \<Rightarrow> byte list" where
  "serializeFloats floatArray =
     serialize_loop floatArray 0 (replicate (length floatArray * 8) 0)"

datatype algorithm = SHA_256 | SHA_512

text \<open>
  \<open>crypto.subtle.digest\<close> is a parameter \<open>dg\<close> of the pipeline.  The hardware random source
  is the sequence of bytes it is going to deliver; \<open>crypto.getRandomValues\<close> on an array of
  \<open>n\<close> bytes takes the next \<open>n\<close> of them, and throws a \<open>QuotaExceededError\<close>, leaving
  the source untouched, when \<open>n\<close> exceeds 65536.
\<close>

type_synonym digest = "algorithm \<Rightarrow> byte list \<Rightarrow> byte list"
type_synonym csprng = "nat \<Rightarrow> byte"

definition getRandomValues :: "nat \<Rightarrow> csprng \<Rightarrow> error + (byte list \<times> csprng)" where
  "getRandomValues n rng =
     (if n > 65536 then Inl QuotaExceededError
      else Inr (map rng [0..<n], (\<lambda>i. rng (i + n))))"

definition generateSalt ::
  "'a rng_base_scheme \<Rightarrow> csprng \<Rightarrow> error + (byte list \<times> csprng)" where
  "generateSalt s rng = getRandomValues (saltSize s) rng"

definition combineEntropy :: "digest \<Rightarrow> ntrpRNG \<Rightarrow> byte list \<Rightarrow> byte list" where
  "combineEntropy dg s salt =
     (let entropyBytes = serializeFloats (entropyPool s);
          timerBytes = serializeFloats (timerDeltas s);
          entropyHash = dg SHA_256 entropyBytes;
          timerHash = dg SHA_256 timerBytes;
          totalLength = length entropyHash + length timerHash + length salt;
          combined0 = replicate totalLength 0;
          combined1 = write_at combined0 0 entropyHash;
          combined2 = write_at combined1 (length entropyHash) timerHash
      in write_at combined2 (length entropyHash + length timerHash) salt)"

text \<open>
  The v1.3.0 loop; the second component counts the times it has handed control back to the
  scheduler (\<open>await new Promise(resolve => setTimeout(resolve, 0))\<close>).
\<close>

function iterativeHash_loop ::
  "digest \<Rightarrow> algorithm \<Rightarrow> nat \<Rightarrow> nat \<Rightarrow> byte list \<times> nat \<Rightarrow> byte list \<times> nat" where
  "iterativeHash_loop dg alg iters i (hash, yields) =
     (if i < iters
      then iterativeHash_loop dg alg iters (i + 1)
             (dg alg hash, (if (i + 1) mod 100 = 0 then yields + 1 else yields))
      else (hash, yields))"
  by pat_completeness auto
termination
  by (relation "measure (\<lambda>(dg, alg, iters, i, st). iters - i)") auto

declare iterativeHash_loop.simps [simp del]

definition iterativeHash :: "digest \<Rightarrow> byte list \<Rightarrow> algorithm \<Rightarrow> nat \<Rightarrow> byte list \<times> nat" where
  "iterativeHash dg data alg iters = iterativeHash_loop dg alg iters 0 (data, 0)"

text \<open>The v1.2.1 loop, which has no batching.\<close>

function iterativeHash_loop_v121 ::
  "digest \<Rightarrow> algorithm \<Rightarrow> nat \<Rightarrow> nat \<Rightarrow> byte list \<Rightarrow> byte list" where
  "iterativeHash_loop_v121 dg alg iters i hash =
     (if i < iters then iterativeHash_loop_v121 dg alg iters (i + 1) (dg alg hash) else hash)"
  by pat_completeness auto
termination
  by (relation "measure (\<lambda>(dg, alg, iters, i, hash). iters - i)") auto

declare iterativeHash_loop_v121.simps [simp del]

definition iterativeHash_v121 :: "digest \<Rightarrow> byte list \<Rightarrow> algorithm \<Rightarrow> nat \<Rightarrow> byte list" where
  "iterativeHash_v121 dg data alg iters = iterativeHash_loop_v121 dg alg iters 0 data"

definition xorArrays :: "byte list \<Rightarrow> byte list \<Rightarrow> byte list" where
  "xorArrays a b = map (\<lambda>i. (a ! i) XOR (b ! i)) [0..<min (length a) (length b)]"

definition truncate512 :: "byte list \<Rightarrow> byte list" where
  "truncate512 hash512 = take 32 hash512"

definition generateSeed ::
  "digest \<Rightarrow> constants \<Rightarrow> ntrpRNG \<Rightarrow> bool \<Rightarrow> csprng \<Rightarrow> error + (byte list \<times> csprng)" where
  "generateSeed dg c s skipValidation rng =
     (if tampered c \<or> minEvents s \<noteq> 500 then Inl IntegrityError
      else
        (case (if \<not> skipValidation
               then (case hasMinimumEntropy c s of Inl e \<Rightarrow> Inl e | Inr b \<Rightarrow> Inr (\<not> b))
               else Inr False) of
           Inl e \<Rightarrow> Inl e
         | Inr True \<Rightarrow>
             (case getStats c s of
                Inl e \<Rightarrow> Inl e
              | Inr stats \<Rightarrow>
                  Inl (InsufficientEntropy (st_totalEvents stats) 500
                         (length (entropyPool s)) (length (timerDeltas s))))
         | Inr False \<Rightarrow>
             (case generateSalt s rng of
                Inl e \<Rightarrow> Inl e
              | Inr (salt, rng1) \<Rightarrow>
                  (let combined = combineEntropy dg s salt;
                       preHash = dg SHA_256 combined;
                       hash256_A = fst (iterativeHash dg preHash SHA_256 (iterations s));
                       hash512_A_full = fst (iterativeHash dg preHash SHA_512 (iterations s));
                       hash512_A = truncate512 hash512_A_full;
                       user_final = xorArrays hash256_A hash512_A
                   in (case getRandomValues 64 rng1 of
                         Inl e \<Rightarrow> Inl e
                       | Inr (random_bytes, rng2) \<Rightarrow>
                           (let hash256_B = dg SHA_256 random_bytes;
                                hash512_B_full = dg SHA_512 random_bytes;
                                hash512_B = truncate512 hash512_B_full;
                                csprng_final = xorArrays hash256_B hash512_B;
                                finalInputLength =
                                  length user_final + length csprng_final + length salt;
                                finalInput0 = replicate finalInputLength 0;
                                finalInput1 = write_at finalInput0 0 user_final;
                                finalInput2 =
                                  write_at finalInput1 (length user_final) csprng_final;
                                finalInput =
                                  write_at finalInput2
                                    (length user_final + length csprng_final) salt;
                                intermediate = dg SHA_512 finalInput;
                                finalSeed = dg SHA_512 intermediate
                            in Inr (finalSeed, rng2)))))))"

section \<open>The baseline generator cgRNDV\<close>

definition cg_startCollecting :: "rng_base \<Rightarrow> rng_base" where
  "cg_startCollecting s = s\<lparr>isCollecting := True\<rparr>"

definition cg_stopCollecting :: "rng_base \<Rightarrow> rng_base" where
  "cg_stopCollecting s = s\<lparr>isCollecting := False\<rparr>"

definition cg_constructor :: "options \<Rightarrow> rng_base" where
  "cg_constructor opts =
     (let s = \<lparr>iterations = js_or_default (opt_iterations opts) 5000,
               saltSize = js_or_default (opt_saltSize opts) 32,
               autoCollect = (opt_autoCollect opts \<noteq> Some False),
               minEvents = js_or_default (opt_minEvents opts) 0,
               isCollecting = False,
               entropyPool = [],
               timerDeltas = [],
               eventCount = zero_counters\<rparr>
      in if autoCollect s then cg_startCollecting s else s)"

definition cg_combineEntropy :: "rng_base \<Rightarrow> byte list \<Rightarrow> byte list" where
  "cg_combineEntropy s salt = salt"

definition cg_hasMinimumEntropy :: "rng_base \<Rightarrow> bool" where
  "cg_hasMinimumEntropy s = True"

definition cg_generateSeed ::
  "rng_base \<Rightarrow> bool \<Rightarrow> csprng \<Rightarrow> error + (byte list \<times> csprng)" where
  "cg_generateSeed s skipValidation rng = getRandomValues 64 rng"

definition cg_getStats :: "rng_base \<Rightarrow> stats" where
  "cg_getStats s =
     \<lparr>st_entropyPoolSize = 0,
      st_timerDeltasSize = 0,
      st_isCollecting = isCollecting s,
      st_eventCount = eventCount s,
      st_totalEvents = 0,
      st_minEvents = minEvents s,
      st_hasMinimumEntropy = True\<rparr>"

definition cg_clearEntropy :: "rng_base \<Rightarrow> rng_base" where
  "cg_clearEntropy s = s\<lparr>entropyPool := [], timerDeltas := [], eventCount := zero_counters\<rparr>"

text \<open>
  The public calls a client can make on a \<open>cgRNDV\<close> instance.  A call that draws random
  bytes advances the source; one that throws leaves it as it was.
\<close>

definition source_after :: "csprng \<Rightarrow> error + (byte list \<times> csprng) \<Rightarrow> csprng" where
  "source_after rng result = (case result of Inl e \<Rightarrow> rng | Inr (bytes, rng') \<Rightarrow> rng')"

datatype cg_call =
  StartCollecting
  | StopCollecting
  | GenerateSalt
  | CombineEntropy "byte list"
  | HasMinimumEntropy
  | GenerateSeed bool
  | GetStats
  | ClearEntropy

fun cg_call_step :: "cg_call \<Rightarrow> rng_base \<times> csprng \<Rightarrow> rng_base \<times> csprng" where
  "cg_call_step StartCollecting (s, rng) = (cg_startCollecting s, rng)"
| "cg_call_step StopCollecting (s, rng) = (cg_stopCollecting s, rng)"
| "cg_call_step GenerateSalt (s, rng) = (s, source_after rng (generateSalt s rng))"
| "cg_call_step (CombineEntropy salt) (s, rng) = (s, rng)"
| "cg_call_step HasMinimumEntropy (s, rng) = (s, rng)"
| "cg_call_step (GenerateSeed skipValidation) (s, rng) =
     (s, source_after rng (cg_generateSeed s skipValidation rng))"
| "cg_call_step GetStats (s, rng) = (s, rng)"
| "cg_call_step ClearEntropy (s, rng) = (cg_clearEntropy s, rng)"

definition cg_calls :: "cg_call list \<Rightarrow> rng_base \<times> csprng \<Rightarrow> rng_base \<times> csprng" where
  "cg_calls calls st = fold cg_call_step calls st"

section \<open>Vocabulary of the properties\<close>

text \<open>
  A session is any interleaving of delivered events with the three collection-control
  calls.
\<close>

datatype action = Deliver event | Start host | Stop bool | Clear

fun perform :: "(float64 \<Rightarrow> float64 \<Rightarrow> float64) \<Rightarrow> action \<Rightarrow> ntrpRNG \<Rightarrow> ntrpRNG" where
  "perform fsub (Deliver ev) s = deliver fsub ev s"
| "perform fsub (Start h) s = startCollecting h s"
| "perform fsub (Stop dm) s = stopCollecting dm s"
| "perform fsub Clear s = clearEntropy s"

definition session :: "(float64 \<Rightarrow> float64 \<Rightarrow> float64) \<Rightarrow> action list \<Rightarrow> ntrpRNG \<Rightarrow> ntrpRNG" where
  "session fsub acts s = fold (perform fsub) acts s"

definition within_caps :: "ntrpRNG \<Rightarrow> bool" where
  "within_caps s \<longleftrightarrow> length (entropyPool s) \<le> 5000 \<and> length (timerDeltas s) \<le> 1000"

text \<open>
  The categories of recorded events.  A \<open>devicemotion\<close> event is recorded only when it
  carries \<open>accelerationIncludingGravity\<close>; without it the handler does nothing.
\<close>

fun is_keydown :: "event \<Rightarrow> bool" where
  "is_keydown (KeyDown now kc wh rp) = True"
| "is_keydown ev = False"

fun is_mousedown :: "event \<Rightarrow> bool" where
  "is_mousedown (MouseDown now cx cy b bs) = True"
| "is_mousedown ev = False"

fun is_touchstart :: "event \<Rightarrow> bool" where
  "is_touchstart (TouchStart ts) = True"
| "is_touchstart ev = False"

fun is_devicemotion :: "event \<Rightarrow> bool" where
  "is_devicemotion (DeviceMotion now (Some a) r) = True"
| "is_devicemotion ev = False"

fun is_mousemove :: "event \<Rightarrow> bool" where
  "is_mousemove (MouseMove now cx cy mx my sx sy) = True"
| "is_mousemove ev = False"

fun is_touchmove :: "event \<Rightarrow> bool" where
  "is_touchmove (TouchMove ts) = True"
| "is_touchmove ev = False"

fun is_scroll :: "event \<Rightarrow> bool" where
  "is_scroll (Scroll now x y w h) = True"
| "is_scroll ev = False"

definition occurrences :: "(event \<Rightarrow> bool) \<Rightarrow> event list \<Rightarrow> nat" where
  "occurrences kind evs = length (filter kind evs)"

text \<open>Occurrence count times fixed weight, summed over the seven categories.\<close>

definition weighted_sum :: "event list \<Rightarrow> nat" where
  "weighted_sum evs =
     occurrences is_keydown evs * 3 +
     (occurrences is_mousedown evs + occurrences is_touchstart evs +
      occurrences is_devicemotion evs) * 2 +
     (occurrences is_mousemove evs + occurrences is_touchmove evs +
      occurrences is_scroll evs) * 1"

text \<open>
  The occurrence counts in the order keydown, mousedown, touchstart, devicemotion,
  mousemove, touchmove, scroll.
\<close>

definition tally :: "event list \<Rightarrow> nat list" where
  "tally evs =
     map (\<lambda>kind. occurrences kind evs)
       [is_keydown, is_mousedown, is_touchstart, is_devicemotion,
        is_mousemove, is_touchmove, is_scroll]"

text \<open>The four constants agree with one another when they are all the same number.\<close>

definition constants_agree :: "constants \<Rightarrow> bool" where
  "constants_agree c \<longleftrightarrow>
     REQUIRED_MIN_EVENTS c = VERIFY_A c \<and> VERIFY_A c = VERIFY_B c \<and> VERIFY_B c = VERIFY_C c"

text \<open>Reading a binary64 back from eight bytes, most significant byte first.\<close>

definition decode_be :: "byte list \<Rightarrow> float64" where
  "decode_be bs = foldl (\<lambda>acc b. push_bit 8 acc OR ucast b) 0 bs"

subsection \<open>Concrete inputs for the examples\<close>

definition idle_options :: options where
  "idle_options =
     \<lparr>opt_iterations = None, opt_saltSize = None, opt_autoCollect = Some False,
      opt_minEvents = None\<rparr>"

definition quiet_host :: host where
  "quiet_host =
     \<lparr>perfNow = 0, hasDeviceMotionEvent = False, rafHandle = 1, intervalHandle = 2,
      timeoutHandle = 3\<rparr>"

text \<open>The instance \<open>new ntrpRNG({autoCollect: false})\<close>.\<close>

definition idle_instance :: ntrpRNG where
  "idle_instance =
     \<lparr>iterations = 5000, saltSize = 32, autoCollect = False, minEvents = 500,
      isCollecting = False, entropyPool = [], timerDeltas = [], eventCount = zero_counters,
      lastTimestamp = 0, timerId1 = None, timerId2 = None, rafId = None, listeners = []\<rparr>"

text \<open>An instance that has seen 200 key presses and holds a few samples.\<close>

definition ready_instance :: ntrpRNG where
  "ready_instance =
     idle_instance\<lparr>entropyPool := [1, 2, 3, 4], timerDeltas := [5, 6],
       eventCount := zero_counters\<lparr>keyboard := 600\<rparr>\<rparr>"

text \<open>A stand-in digest with the output lengths of SHA-256 and SHA-512.\<close>

definition toy_digest :: digest where
  "toy_digest alg data =
     replicate (case alg of SHA_256 \<Rightarrow> 32 | SHA_512 \<Rightarrow> 64) (of_nat (length data))"

definition zero_source :: csprng where
  "zero_source = (\<lambda>i. 0)"

text \<open>
  The examples deliver no timer callback, so the subtraction they are given is never
  applied; this one is a placeholder, not binary64 subtraction.
\<close>

definition unused_fsub :: "float64 \<Rightarrow> float64 \<Rightarrow> float64" where
  "unused_fsub a b = 0"

section \<open>Frame of clearEntropy\<close>

text \<open>
  Claim C10.  For every instance state, \<open>clearEntropy()\<close> leaves both pools empty and all
  five category counters at zero, and leaves \<open>isCollecting\<close>, \<open>iterations\<close>, \<open>saltSize\<close>,
  the registered listeners and the three timer handles exactly as they were; a running
  collection therefore keeps running.
\<close>

theorem clearEntropy_frame:
  "entropyPool (clearEntropy s) = [] \<and>
   timerDeltas (clearEntropy s) = [] \<and>
   mouse (eventCount (clearEntropy s)) = 0 \<and>
   keyboard (eventCount (clearEntropy s)) = 0 \<and>
   touch (eventCount (clearEntropy s)) = 0 \<and>
   scroll (eventCount (clearEntropy s)) = 0 \<and>
   other (eventCount (clearEntropy s)) = 0 \<and>
   isCollecting (clearEntropy s) = isCollecting s \<and>
   iterations (clearEntropy s) = iterations s \<and>
   saltSize (clearEntropy s) = saltSize s \<and>
   listeners (clearEntropy s) = listeners s \<and>
   timerId1 (clearEntropy s) = timerId1 s \<and>
   timerId2 (clearEntropy s) = timerId2 s \<and>
   rafId (clearEntropy s) = rafId s \<and>
   clearEntropy s =
     s\<lparr>entropyPool := [], timerDeltas := [], eventCount := zero_counters\<rparr>"
  by (simp add: clearEntropy_def zero_counters_def)

section \<open>Integrity guard, readiness and validation\<close>

lemma tampered_iff: "tampered c \<longleftrightarrow> \<not> constants_agree c"
  by (auto simp add: tampered_def constants_agree_def)

lemma builtin_agree: "constants_agree builtin"
  by (simp add: constants_agree_def builtin_def)

lemma constructor_builtin:
  "\<exists>s0. constructor builtin opts h =
          Inr (s0, if opt_minEvents opts = None \<or> opt_minEvents opts = Some 500
                   then [] else [override_warning]) \<and>
        minEvents s0 = 500 \<and> entropyPool s0 = [] \<and> timerDeltas s0 = [] \<and>
        eventCount s0 = zero_counters"
  by (simp add: constructor_def tampered_def builtin_def Let_def startCollecting_def
      startTimerJitter_def)

lemma constructor_error:
  "constructor c opts h = Inl e \<longleftrightarrow> e = IntegrityError \<and> tampered c"
  by (auto simp add: constructor_def Let_def)

lemma hasMinimumEntropy_error:
  "hasMinimumEntropy c s = Inl e \<longleftrightarrow> e = IntegrityError \<and> (tampered c \<or> minEvents s \<noteq> 500)"
  by (auto simp add: hasMinimumEntropy_def Let_def)

lemma hasMinimumEntropy_value:
  "\<not> tampered c \<Longrightarrow> minEvents s = 500 \<Longrightarrow>
   hasMinimumEntropy c s =
     Inr (500 \<le> getWeightedEventCount s \<and> entropyPool s \<noteq> [] \<and> timerDeltas s \<noteq> [])"
  by (simp add: hasMinimumEntropy_def)

lemma generateSeed_tampered:
  "tampered c \<or> minEvents s \<noteq> 500 \<Longrightarrow> generateSeed dg c s skip rng = Inl IntegrityError"
  by (simp add: generateSeed_def)

lemma generateSeed_insufficient:
  "hasMinimumEntropy c s = Inr False \<Longrightarrow>
   generateSeed dg c s False rng =
     Inl (InsufficientEntropy (getWeightedEventCount s) 500
            (length (entropyPool s)) (length (timerDeltas s)))"
proof -
  assume a: "hasMinimumEntropy c s = Inr False"
  then have ok: "\<not> (tampered c \<or> minEvents s \<noteq> 500)"
    by (auto simp add: hasMinimumEntropy_def split: if_splits)
  show ?thesis
    using a ok by (simp add: generateSeed_def getStats_def)
qed

lemma generateSeed_proceeds:
  assumes "\<not> tampered c" and "minEvents s = 500"
    and "skip \<or> hasMinimumEntropy c s = Inr True"
    and "saltSize s \<le> 65536"
  shows "\<exists>x. generateSeed dg c s skip rng =
              Inr (dg SHA_512 x, (\<lambda>i. rng (i + 64 + saltSize s)))"
proof -
  have v: "(if \<not> skip
            then (case hasMinimumEntropy c s of Inl e \<Rightarrow> Inl e | Inr b \<Rightarrow> Inr (\<not> b))
            else Inr False) = Inr False"
    using assms(3) by (cases skip) simp_all
  show ?thesis
    unfolding generateSeed_def v
    using assms(1,2,4)
    apply (simp add: Let_def generateSalt_def getRandomValues_def split: prod.splits)
    apply (rule exI)
    apply (rule refl)
    done
qed

lemma generateSeed_quota:
  assumes "\<not> tampered c" and "minEvents s = 500"
    and "skip \<or> hasMinimumEntropy c s = Inr True"
    and "65536 < saltSize s"
  shows "generateSeed dg c s skip rng = Inl QuotaExceededError"
proof -
  have v: "(if \<not> skip
            then (case hasMinimumEntropy c s of Inl e \<Rightarrow> Inl e | Inr b \<Rightarrow> Inr (\<not> b))
            else Inr False) = Inr False"
    using assms(3) by (cases skip) simp_all
  show ?thesis
    unfolding generateSeed_def v
    using assms(1,2,4)
    by (simp add: generateSalt_def getRandomValues_def)
qed

lemma generateSeed_outcomes:
  "generateSeed dg c s skip rng = Inl IntegrityError \<and> (tampered c \<or> minEvents s \<noteq> 500) \<or>
   (\<exists>w r p t. generateSeed dg c s skip rng = Inl (InsufficientEntropy w r p t)) \<and>
     \<not> skip \<and> hasMinimumEntropy c s = Inr False \<or>
   generateSeed dg c s skip rng = Inl QuotaExceededError \<and>
     \<not> tampered c \<and> minEvents s = 500 \<and> (skip \<or> hasMinimumEntropy c s = Inr True) \<and>
     65536 < saltSize s \<or>
   (\<exists>x rng'. generateSeed dg c s skip rng = Inr (dg SHA_512 x, rng')) \<and>
     \<not> tampered c \<and> minEvents s = 500 \<and> (skip \<or> hasMinimumEntropy c s = Inr True) \<and>
     saltSize s \<le> 65536"
proof (cases "tampered c \<or> minEvents s \<noteq> 500")
  case True
  then show ?thesis
    using generateSeed_tampered [of c s dg skip rng] by simp
next
  case ok: False
  then have v: "hasMinimumEntropy c s =
     Inr (500 \<le> getWeightedEventCount s \<and> entropyPool s \<noteq> [] \<and> timerDeltas s \<noteq> [])"
    using hasMinimumEntropy_value [of c s] by simp
  show ?thesis
  proof (cases "skip \<or> hasMinimumEntropy c s = Inr True")
    case True
    show ?thesis
    proof (cases "saltSize s \<le> 65536")
      case small: True
      then show ?thesis
        using generateSeed_proceeds [of c s skip dg rng] ok True by blast
    next
      case False
      then have "65536 < saltSize s" by simp
      then show ?thesis
        using generateSeed_quota [of c s skip dg rng] ok True by simp
    qed
  next
    case False
    then have f: "hasMinimumEntropy c s = Inr False" and ns: "\<not> skip"
      using v by auto
    show ?thesis
      using generateSeed_insufficient [OF f, of dg rng] f ns by simp
  qed
qed

text \<open>
  Claim C1, as amended.  \<open>generateSeed(false)\<close> rejects with the insufficient-entropy error
  exactly when \<open>hasMinimumEntropy()\<close> returns false, and the error then carries the weighted
  total, the required 500 and the two pool sizes.  On a freshly cleared instance
  \<open>generateSeed(false)\<close> rejects with that error, and \<open>generateSeed(true)\<close> succeeds
  exactly when the configured salt size is at most 65536 bytes; above that the salt draw
  is rejected with a \<open>QuotaExceededError\<close>.  Every successful call returns the output of
  the 512-bit digest, which is 64 bytes long.
\<close>

theorem generateSeed_validation:
  "((\<exists>w r p t. generateSeed dg c s False rng = Inl (InsufficientEntropy w r p t)) \<longleftrightarrow>
      hasMinimumEntropy c s = Inr False) \<and>
   (hasMinimumEntropy c s = Inr False \<longrightarrow>
      generateSeed dg c s False rng =
        Inl (InsufficientEntropy (getWeightedEventCount s) 500
               (length (entropyPool s)) (length (timerDeltas s)))) \<and>
   (minEvents s = 500 \<longrightarrow>
      generateSeed dg builtin (clearEntropy s) False rng =
        Inl (InsufficientEntropy 0 500 0 0) \<and>
      ((\<exists>seed rng'. generateSeed dg builtin (clearEntropy s) True rng = Inr (seed, rng')) \<longleftrightarrow>
         saltSize s \<le> 65536) \<and>
      (65536 < saltSize s \<longrightarrow>
         generateSeed dg builtin (clearEntropy s) True rng = Inl QuotaExceededError)) \<and>
   ((\<forall>x. length (dg SHA_512 x) = 64) \<longrightarrow>
      (\<forall>seed rng'. generateSeed dg c s skip rng = Inr (seed, rng') \<longrightarrow> length seed = 64))"
proof (intro conjI impI allI)
  show "(\<exists>w r p t. generateSeed dg c s False rng = Inl (InsufficientEntropy w r p t)) \<longleftrightarrow>
      hasMinimumEntropy c s = Inr False"
  proof
    assume "\<exists>w r p t. generateSeed dg c s False rng = Inl (InsufficientEntropy w r p t)"
    then obtain w r p t where
      e: "generateSeed dg c s False rng = Inl (InsufficientEntropy w r p t)"
      by blast
    show "hasMinimumEntropy c s = Inr False"
      using generateSeed_outcomes [of dg c s False rng] unfolding e by auto
  next
    assume "hasMinimumEntropy c s = Inr False"
    then show "\<exists>w r p t. generateSeed dg c s False rng = Inl (InsufficientEntropy w r p t)"
      using generateSeed_insufficient [of c s dg rng] by blast
  qed
next
  assume "hasMinimumEntropy c s = Inr False"
  then show "generateSeed dg c s False rng =
        Inl (InsufficientEntropy (getWeightedEventCount s) 500
               (length (entropyPool s)) (length (timerDeltas s)))"
    by (rule generateSeed_insufficient)
next
  assume m: "minEvents s = 500"
  have nt: "\<not> tampered builtin"
    by (simp add: tampered_def builtin_def)
  have m': "minEvents (clearEntropy s) = 500"
    using m by (simp add: clearEntropy_def)
  have sz: "saltSize (clearEntropy s) = saltSize s"
    by (simp add: clearEntropy_def)
  have "hasMinimumEntropy builtin (clearEntropy s) = Inr False"
    using hasMinimumEntropy_value [OF nt m'] by (simp add: clearEntropy_def)
  then have "generateSeed dg builtin (clearEntropy s) False rng =
        Inl (InsufficientEntropy (getWeightedEventCount (clearEntropy s)) 500
               (length (entropyPool (clearEntropy s))) (length (timerDeltas (clearEntropy s))))"
    by (rule generateSeed_insufficient)
  then show "generateSeed dg builtin (clearEntropy s) False rng =
        Inl (InsufficientEntropy 0 500 0 0)"
    by (simp add: clearEntropy_def getWeightedEventCount_def zero_counters_def)
  show "(\<exists>seed rng'. generateSeed dg builtin (clearEntropy s) True rng = Inr (seed, rng')) \<longleftrightarrow>
         saltSize s \<le> 65536"
  proof
    assume "\<exists>seed rng'. generateSeed dg builtin (clearEntropy s) True rng = Inr (seed, rng')"
    then obtain seed rng' where
      ok: "generateSeed dg builtin (clearEntropy s) True rng = Inr (seed, rng')"
      by blast
    have "saltSize (clearEntropy s) \<le> 65536"
      using generateSeed_outcomes [of dg builtin "clearEntropy s" True rng] unfolding ok
      by auto
    then show "saltSize s \<le> 65536"
      by (simp only: sz)
  next
    assume "saltSize s \<le> 65536"
    then have "saltSize (clearEntropy s) \<le> 65536"
      by (simp only: sz)
    then show "\<exists>seed rng'. generateSeed dg builtin (clearEntropy s) True rng = Inr (seed, rng')"
      using generateSeed_proceeds [OF nt m', of True dg rng] by blast
  qed
  {
    assume "65536 < saltSize s"
    then have "65536 < saltSize (clearEntropy s)"
      by (simp only: sz)
    then show "generateSeed dg builtin (clearEntropy s) True rng = Inl QuotaExceededError"
      using generateSeed_quota [OF nt m', of True dg rng] by simp
  }
next
  fix seed rng'
  assume len: "\<forall>x. length (dg SHA_512 x) = 64"
    and ok: "generateSeed dg c s skip rng = Inr (seed, rng')"
  have "\<exists>x rng'. generateSeed dg c s skip rng = Inr (dg SHA_512 x, rng')"
    using generateSeed_outcomes [of dg c s skip rng] unfolding ok by auto
  then obtain x where "seed = dg SHA_512 x"
    unfolding ok by auto
  then show "length seed = 64"
    using len by simp
qed

lemma toy_digest_length: "length (toy_digest SHA_512 x) = 64"
  by (simp add: toy_digest_def)

theorem generateSeed_validation_witness:
  "hasMinimumEntropy builtin idle_instance = Inr False \<and>
   generateSeed toy_digest builtin idle_instance False zero_source =
     Inl (InsufficientEntropy 0 500 0 0) \<and>
   (\<exists>seed rng'. generateSeed toy_digest builtin (clearEntropy idle_instance) True zero_source =
       Inr (seed, rng') \<and> length seed = 64) \<and>
   generateSeed toy_digest builtin (clearEntropy (idle_instance\<lparr>saltSize := 65537\<rparr>)) True
     zero_source = Inl QuotaExceededError"
proof -
  have h: "hasMinimumEntropy builtin idle_instance = Inr False"
    by (simp add: hasMinimumEntropy_def tampered_def builtin_def idle_instance_def
        getWeightedEventCount_def zero_counters_def)
  have m: "minEvents idle_instance = 500" and sz: "saltSize idle_instance \<le> 65536"
    by (simp_all add: idle_instance_def)
  have len: "\<forall>x. length (toy_digest SHA_512 x) = 64"
    by (simp add: toy_digest_length)
  have insufficient: "generateSeed toy_digest builtin idle_instance False zero_source =
     Inl (InsufficientEntropy 0 500 0 0)"
    using generateSeed_validation [of toy_digest builtin idle_instance zero_source] h
    by (simp add: idle_instance_def getWeightedEventCount_def zero_counters_def)
  obtain seed rng' where
    ok: "generateSeed toy_digest builtin (clearEntropy idle_instance) True zero_source =
           Inr (seed, rng')"
    using generateSeed_validation [of toy_digest builtin idle_instance zero_source] m sz
    by blast
  have "length seed = 64"
    using generateSeed_validation
      [of toy_digest builtin "clearEntropy idle_instance" zero_source True] len ok
    by blast
  moreover have "generateSeed toy_digest builtin
      (clearEntropy (idle_instance\<lparr>saltSize := 65537\<rparr>)) True zero_source =
      Inl QuotaExceededError"
    using generateSeed_validation
      [of toy_digest builtin "idle_instance\<lparr>saltSize := 65537\<rparr>" zero_source]
    by (simp add: idle_instance_def)
  ultimately show ?thesis
    using h insufficient ok by blast
qed

text \<open>
  The claim as first stated, that \<open>generateSeed(true)\<close> succeeds on every freshly reset
  instance, fails on the instance \<open>new ntrpRNG({autoCollect: false, saltSize: 65537})\<close>.
\<close>

theorem generateSeed_quota_counterexample:
  "constructor builtin (idle_options\<lparr>opt_saltSize := Some 65537\<rparr>) quiet_host =
     Inr (idle_instance\<lparr>saltSize := 65537\<rparr>, []) \<and>
   generateSeed toy_digest builtin (clearEntropy (idle_instance\<lparr>saltSize := 65537\<rparr>)) True
     zero_source = Inl QuotaExceededError"
proof -
  have built: "constructor builtin (idle_options\<lparr>opt_saltSize := Some 65537\<rparr>) quiet_host =
     Inr (idle_instance\<lparr>saltSize := 65537\<rparr>, [])"
    by (simp add: constructor_def tampered_def builtin_def idle_options_def quiet_host_def
        idle_instance_def js_or_default_def Let_def)
  have nt: "\<not> tampered builtin"
    by (simp add: tampered_def builtin_def)
  have m: "minEvents (clearEntropy (idle_instance\<lparr>saltSize := 65537\<rparr>)) = 500"
    and sz: "65536 < saltSize (clearEntropy (idle_instance\<lparr>saltSize := 65537\<rparr>))"
    by (simp_all add: clearEntropy_def idle_instance_def)
  have rejected: "generateSeed toy_digest builtin
      (clearEntropy (idle_instance\<lparr>saltSize := 65537\<rparr>)) True zero_source =
      Inl QuotaExceededError"
    using generateSeed_quota [OF nt m _ sz, of True toy_digest zero_source] by simp
  show ?thesis
    using built rejected by simp
qed

text \<open>
  The threshold field is written by the constructor only: no event, timer callback or
  collection-control call changes it.
\<close>

lemma minEvents_addEntropy [simp]: "minEvents (addEntropy vals s) = minEvents s"
  by (simp add: addEntropy_def Let_def)

lemma minEvents_fold_addEntropy [simp]:
  "minEvents (fold (\<lambda>t. addEntropy (f t)) ts s) = minEvents s"
  by (induction ts arbitrary: s) simp_all

lemma minEvents_collectTimerDelta [simp]:
  "minEvents (collectTimerDelta fsub now d s) = minEvents s"
  by (simp add: collectTimerDelta_def Let_def)

lemma minEvents_deliver: "minEvents (deliver fsub ev s) = minEvents s"
proof (cases ev)
  case (DeviceMotion now a r)
  then show ?thesis
    by (cases a; cases "the a") (simp_all add: bump_other_def)
qed (simp_all add: onMouseMove_def onMouseDown_def onKeyDown_def onTouchStart_def
      onTouchMove_def onScroll_def rafCollect_def intervalCollect_def recursiveTimeout_def
      bump_mouse_def bump_keyboard_def bump_touch_def bump_scroll_def)

lemma minEvents_perform: "minEvents (perform fsub a s) = minEvents s"
  by (cases a)
     (simp_all add: minEvents_deliver startCollecting_def startTimerJitter_def
        stopCollecting_def stopTimerJitter_def clearEntropy_def Let_def)

lemma minEvents_session: "minEvents (session fsub acts s) = minEvents s"
  unfolding session_def
  by (induction acts arbitrary: s) (simp_all add: minEvents_perform)

subsection \<open>The percentage in binary64\<close>

lemma round_half_even_ge_floor: "\<lfloor>x\<rfloor> \<le> round_half_even x"
  by (simp add: round_half_even_def Let_def)

lemma round_half_even_ge: "of_int k \<le> x \<Longrightarrow> k \<le> round_half_even x"
  using round_half_even_ge_floor [of x] by (simp add: le_floor_iff [symmetric])

text \<open>Rounding never goes below a multiple of the quantum that the exact value reaches.\<close>

lemma round_binary64_ge:
  assumes "0 < x" and "q = 2 powi (max (binary64_exponent x) (- 1022) - 52)"
    and "of_int k * q \<le> x"
  shows "of_int k * q \<le> round_binary64 x"
proof -
  have q: "0 < q"
    using assms(2) by simp
  have "of_int k \<le> x / q"
    using assms(3) q by (simp add: pos_le_divide_eq)
  then have "k \<le> round_half_even (x / q)"
    by (rule round_half_even_ge)
  then have "(of_int k :: rat) \<le> of_int (round_half_even (x / q))"
    by simp
  then have "of_int k * q \<le> of_int (round_half_even (x / q)) * q"
    using q by (simp add: mult_le_cancel_right)
  moreover have "round_binary64 x = of_int (round_half_even (x / q)) * q"
    using assms(1,2) by (simp add: round_binary64_def Let_def)
  ultimately show ?thesis by simp
qed

lemma exponent_ge_1:
  assumes "1 \<le> x"
  shows "0 \<le> binary64_exponent x" and "2 powi binary64_exponent x \<le> x"
proof -
  have f: "0 < \<lfloor>x\<rfloor>"
    using assms by simp
  have e: "binary64_exponent x = bitlen \<lfloor>x\<rfloor> - 1"
    using assms by (simp add: binary64_exponent_def)
  have b: "2 ^ nat (bitlen \<lfloor>x\<rfloor> - 1) \<le> \<lfloor>x\<rfloor>"
    using bitlen_bounds [OF f] by simp
  have pos: "0 < bitlen \<lfloor>x\<rfloor>"
    using f bitlen_eq_zero_iff [of "\<lfloor>x\<rfloor>"] bitlen_nonneg [of "\<lfloor>x\<rfloor>"] by linarith
  show nonneg: "0 \<le> binary64_exponent x"
    using pos e by simp
  have "(2::rat) powi binary64_exponent x = 2 ^ nat (bitlen \<lfloor>x\<rfloor> - 1)"
    using nonneg e by (simp add: power_int_def)
  also have "\<dots> = of_int (2 ^ nat (bitlen \<lfloor>x\<rfloor> - 1))"
    by simp
  also have "\<dots> \<le> of_int \<lfloor>x\<rfloor>"
    using b by (simp only: of_int_le_iff)
  also have "\<dots> \<le> x"
    by simp
  finally show "2 powi binary64_exponent x \<le> x" .
qed

lemma quantum_times_2_52:
  assumes "0 \<le> binary64_exponent x"
    and "(q::rat) = 2 powi (max (binary64_exponent x) (- 1022) - 52)"
  shows "of_int (2 ^ 52) * q = 2 powi binary64_exponent x"
proof -
  let ?e = "binary64_exponent x"
  have q': "q = 2 powi (?e - 52)"
    using assms by (simp add: max_def)
  have "(2::rat) powi ?e = 2 powi (52 + (?e - 52))"
    by simp
  also have "\<dots> = 2 powi 52 * 2 powi (?e - 52)"
    by (rule power_int_add) simp
  finally show ?thesis
    by (simp add: q')
qed

lemma round_binary64_ge_power:
  assumes "1 \<le> x"
  shows "2 powi binary64_exponent x \<le> round_binary64 x"
proof -
  let ?e = "binary64_exponent x"
  have e: "0 \<le> ?e" and low: "2 powi ?e \<le> x"
    using exponent_ge_1 [OF assms] by simp_all
  define q :: rat where "q = 2 powi (max ?e (- 1022) - 52)"
  have kq: "of_int (2 ^ 52) * q = 2 powi ?e"
    using e q_def by (rule quantum_times_2_52)
  have pos: "0 < x"
    using assms by simp
  have "of_int (2 ^ 52) * q \<le> x"
    using low by (simp only: kq)
  with pos have "of_int (2 ^ 52) * q \<le> round_binary64 x"
    by (intro round_binary64_ge [OF _ q_def])
  then show ?thesis
    by (simp only: kq)
qed

lemma round_binary64_ge_one:
  assumes "1 \<le> x"
  shows "1 \<le> round_binary64 x"
proof -
  have "(1::rat) \<le> 2 powi binary64_exponent x"
    using exponent_ge_1(1) [OF assms] by (simp add: one_le_power_int)
  then show ?thesis
    using round_binary64_ge_power [OF assms] by linarith
qed

lemma round_binary64_ge_100:
  assumes "100 \<le> x"
  shows "100 \<le> round_binary64 x"
proof -
  let ?e = "binary64_exponent x"
  have one: "1 \<le> x" and pos: "0 < x"
    using assms by simp_all
  have e: "0 \<le> ?e"
    using exponent_ge_1 [OF one] by simp
  define q :: rat where "q = 2 powi (max ?e (- 1022) - 52)"
  have q': "q = 2 powi (?e - 52)"
    using e by (simp add: q_def max_def)
  show ?thesis
  proof (cases "?e \<le> 54")
    case True
    define k :: int where "k = 25 * 2 ^ nat (54 - ?e)"
    have "(2::rat) powi (54 - ?e) * 2 powi (?e - 52) = 2 powi ((54 - ?e) + (?e - 52))"
      by (rule power_int_add [symmetric]) simp
    then have four: "(2::rat) powi (54 - ?e) * 2 powi (?e - 52) = 4"
      by simp
    have nat_pow: "(2::rat) ^ nat (54 - ?e) = 2 powi (54 - ?e)"
      using True by (simp add: power_int_def)
    have "of_int k * q = 25 * ((2::rat) powi (54 - ?e) * 2 powi (?e - 52))"
      by (simp add: k_def q' nat_pow)
    then have kq: "of_int k * q = 100"
      by (simp add: four)
    have "of_int k * q \<le> round_binary64 x"
      using pos assms by (intro round_binary64_ge [OF _ q_def]) (simp_all add: kq)
    then show ?thesis
      by (simp only: kq)
  next
    case False
    then have big: "55 \<le> ?e" by simp
    have "(2::rat) powi 55 \<le> 2 powi ?e"
      using big by (intro power_int_increasing) simp_all
    then have "(100::rat) \<le> 2 powi ?e"
      by simp
    then show ?thesis
      using round_binary64_ge_power [OF one] by linarith
  qed
qed

lemma percentage_cap:
  assumes "500 \<le> n"
  shows "min 100 (binary64_mul (binary64_div (of_nat n) 500) 100) = 100"
proof -
  have "(1::rat) \<le> of_nat n / 500"
    using assms by simp
  then have "1 \<le> binary64_div (of_nat n) 500"
    unfolding binary64_div_def by (rule round_binary64_ge_one)
  then have "100 \<le> binary64_div (of_nat n) 500 * 100"
    by simp
  then have "100 \<le> binary64_mul (binary64_div (of_nat n) 500) 100"
    unfolding binary64_mul_def by (rule round_binary64_ge_100)
  then show ?thesis
    by simp
qed

text \<open>
  Below the threshold the two roundings show: 7 weighted events give
  1.4000000000000001 and 35 give 7.000000000000001, the binary64 values next above 7/5
  and 7, while 250 give exactly 50.
\<close>

lemma percentage_of_0: "min 100 (binary64_mul (binary64_div 0 500) 100) = 0"
  by code_simp

lemma percentage_of_7:
  "min 100 (binary64_mul (binary64_div 7 500) 100) = 6305039478318695 / 4503599627370496"
  by code_simp

lemma percentage_of_35:
  "min 100 (binary64_mul (binary64_div 35 500) 100) = 7881299347898369 / 1125899906842624"
  by code_simp

lemma percentage_of_250: "min 100 (binary64_mul (binary64_div 250 500) 100) = 50"
  by code_simp

lemma percentage_of_600: "min 100 (binary64_mul (binary64_div 600 500) 100) = 100"
  using percentage_cap [of 600] by simp

text \<open>
  Claim C2.  On an instance whose threshold field is the 500 the constructor gave it,
  \<open>hasMinimumEntropy()\<close> returns true if and only if the weighted event total, the sum of
  the five counters, is at least 500 and both pools are non-empty.  \<open>getProgress()\<close>
  returns that total, the required 500, the readiness flag, and as percentage the smaller
  of 100 and \<open>(currentEvents / 500) * 100\<close> computed in binary64, which is exactly 100 from
  500 events on.
\<close>

theorem readiness_and_progress:
  "(minEvents s = 500 \<longrightarrow>
      hasMinimumEntropy builtin s =
        Inr (500 \<le> getWeightedEventCount s \<and> entropyPool s \<noteq> [] \<and> timerDeltas s \<noteq> [])) \<and>
   getWeightedEventCount s =
     mouse (eventCount s) + keyboard (eventCount s) + touch (eventCount s) +
     scroll (eventCount s) + other (eventCount s) \<and>
   getProgress s =
     \<lparr>currentEvents = getWeightedEventCount s,
      requiredEvents = 500,
      percentage =
        min 100 (binary64_mul (binary64_div (of_nat (getWeightedEventCount s)) 500) 100),
      ready = (500 \<le> getWeightedEventCount s)\<rparr> \<and>
   (500 \<le> getWeightedEventCount s \<longrightarrow> percentage (getProgress s) = 100)"
proof (intro conjI impI)
  assume "minEvents s = 500"
  then show "hasMinimumEntropy builtin s =
        Inr (500 \<le> getWeightedEventCount s \<and> entropyPool s \<noteq> [] \<and> timerDeltas s \<noteq> [])"
    by (simp add: hasMinimumEntropy_value tampered_def builtin_def)
next
  show "getWeightedEventCount s =
     mouse (eventCount s) + keyboard (eventCount s) + touch (eventCount s) +
     scroll (eventCount s) + other (eventCount s)"
    by (simp add: getWeightedEventCount_def)
next
  show "getProgress s =
     \<lparr>currentEvents = getWeightedEventCount s,
      requiredEvents = 500,
      percentage =
        min 100 (binary64_mul (binary64_div (of_nat (getWeightedEventCount s)) 500) 100),
      ready = (500 \<le> getWeightedEventCount s)\<rparr>"
    by (simp add: getProgress_def Let_def)
next
  assume "500 \<le> getWeightedEventCount s"
  then show "percentage (getProgress s) = 100"
    by (simp add: getProgress_def Let_def percentage_cap)
qed

theorem readiness_and_progress_witness:
  "hasMinimumEntropy builtin ready_instance = Inr True \<and>
   getProgress ready_instance =
     \<lparr>currentEvents = 600, requiredEvents = 500, percentage = 100, ready = True\<rparr> \<and>
   hasMinimumEntropy builtin idle_instance = Inr False \<and>
   getProgress idle_instance =
     \<lparr>currentEvents = 0, requiredEvents = 500, percentage = 0, ready = False\<rparr> \<and>
   getProgress (idle_instance\<lparr>eventCount := zero_counters\<lparr>mouse := 7\<rparr>\<rparr>) =
     \<lparr>currentEvents = 7, requiredEvents = 500,
      percentage = 6305039478318695 / 4503599627370496, ready = False\<rparr>"
proof -
  have total: "getWeightedEventCount ready_instance = 600"
    "getWeightedEventCount idle_instance = 0"
    "getWeightedEventCount (idle_instance\<lparr>eventCount := zero_counters\<lparr>mouse := 7\<rparr>\<rparr>) = 7"
    by (simp_all add: ready_instance_def idle_instance_def getWeightedEventCount_def
        zero_counters_def)
  have fields: "minEvents ready_instance = 500" "entropyPool ready_instance \<noteq> []"
    "timerDeltas ready_instance \<noteq> []" "minEvents idle_instance = 500"
    "entropyPool idle_instance = []"
    by (simp_all add: ready_instance_def idle_instance_def)
  show ?thesis
    using readiness_and_progress [of ready_instance] readiness_and_progress [of idle_instance]
      readiness_and_progress [of "idle_instance\<lparr>eventCount := zero_counters\<lparr>mouse := 7\<rparr>\<rparr>"]
    by (simp add: total fields percentage_of_0 percentage_of_7 percentage_of_600)
qed

text \<open>
  Claim C4.  The constructor fails, and then with the integrity error, exactly when the
  four built-in constants disagree; \<open>hasMinimumEntropy()\<close> and \<open>generateSeed()\<close> raise
  the integrity error exactly when the constants disagree or the instance threshold is not
  500.  With the built-in constants construction succeeds for every options object, the
  threshold of the new instance is 500, and the override warning is written exactly when
  \<open>options.minEvents\<close> is present with a value other than 500.
\<close>

theorem integrity_guard:
  "((\<exists>e. constructor c opts h = Inl e) \<longleftrightarrow> \<not> constants_agree c) \<and>
   (constructor c opts h = Inl IntegrityError \<longleftrightarrow> \<not> constants_agree c) \<and>
   (hasMinimumEntropy c s = Inl IntegrityError \<longleftrightarrow>
      \<not> constants_agree c \<or> minEvents s \<noteq> 500) \<and>
   (generateSeed dg c s skip rng = Inl IntegrityError \<longleftrightarrow>
      \<not> constants_agree c \<or> minEvents s \<noteq> 500) \<and>
   (\<exists>s0. constructor builtin opts h =
           Inr (s0, if opt_minEvents opts = None \<or> opt_minEvents opts = Some 500
                    then [] else [override_warning]) \<and>
         minEvents s0 = 500)"
proof (intro conjI)
  show "(\<exists>e. constructor c opts h = Inl e) \<longleftrightarrow> \<not> constants_agree c"
    by (simp add: constructor_error tampered_iff)
  show "constructor c opts h = Inl IntegrityError \<longleftrightarrow> \<not> constants_agree c"
    by (simp add: constructor_error tampered_iff)
  show "hasMinimumEntropy c s = Inl IntegrityError \<longleftrightarrow>
      \<not> constants_agree c \<or> minEvents s \<noteq> 500"
    by (simp add: hasMinimumEntropy_error tampered_iff)
  show "generateSeed dg c s skip rng = Inl IntegrityError \<longleftrightarrow>
      \<not> constants_agree c \<or> minEvents s \<noteq> 500"
  proof
    assume e: "generateSeed dg c s skip rng = Inl IntegrityError"
    have "tampered c \<or> minEvents s \<noteq> 500"
      using generateSeed_outcomes [of dg c s skip rng] unfolding e by auto
    then show "\<not> constants_agree c \<or> minEvents s \<noteq> 500"
      by (simp add: tampered_iff)
  next
    assume "\<not> constants_agree c \<or> minEvents s \<noteq> 500"
    then have "tampered c \<or> minEvents s \<noteq> 500"
      by (simp add: tampered_iff)
    then show "generateSeed dg c s skip rng = Inl IntegrityError"
      by (rule generateSeed_tampered)
  qed
  show "\<exists>s0. constructor builtin opts h =
           Inr (s0, if opt_minEvents opts = None \<or> opt_minEvents opts = Some 500
                    then [] else [override_warning]) \<and>
         minEvents s0 = 500"
    using constructor_builtin [of opts h] by blast
qed

theorem integrity_guard_witness:
  "constructor (builtin\<lparr>VERIFY_A := 499\<rparr>) idle_options quiet_host = Inl IntegrityError \<and>
   hasMinimumEntropy (builtin\<lparr>VERIFY_A := 499\<rparr>) ready_instance = Inl IntegrityError \<and>
   generateSeed toy_digest (builtin\<lparr>VERIFY_A := 499\<rparr>) ready_instance True zero_source =
     Inl IntegrityError \<and>
   hasMinimumEntropy builtin (ready_instance\<lparr>minEvents := 100\<rparr>) = Inl IntegrityError \<and>
   constructor builtin (idle_options\<lparr>opt_minEvents := Some 100\<rparr>) quiet_host =
     Inr (idle_instance, [override_warning]) \<and>
   constructor builtin (idle_options\<lparr>opt_minEvents := Some 500\<rparr>) quiet_host =
     Inr (idle_instance, [])"
proof -
  let ?bad = "builtin\<lparr>VERIFY_A := 499\<rparr>"
  have bad: "\<not> constants_agree ?bad"
    by (simp add: constants_agree_def builtin_def)
  have c1: "constructor builtin (idle_options\<lparr>opt_minEvents := Some 100\<rparr>) quiet_host =
     Inr (idle_instance, [override_warning])"
    using integrity_guard [of builtin "idle_options\<lparr>opt_minEvents := Some 100\<rparr>" quiet_host]
    by (simp add: constructor_def tampered_def builtin_def idle_options_def quiet_host_def
        idle_instance_def js_or_default_def Let_def)
  have c2: "constructor builtin (idle_options\<lparr>opt_minEvents := Some 500\<rparr>) quiet_host =
     Inr (idle_instance, [])"
    by (simp add: constructor_def tampered_def builtin_def idle_options_def quiet_host_def
        idle_instance_def js_or_default_def Let_def)
  show ?thesis
    using integrity_guard [of ?bad idle_options quiet_host ready_instance toy_digest True
        zero_source]
      integrity_guard [of builtin idle_options quiet_host "ready_instance\<lparr>minEvents := 100\<rparr>"
        toy_digest True zero_source]
      bad c1 c2
    by simp
qed

section \<open>Pool caps\<close>

lemma push_all: "fold (\<lambda>v p. p @ [v]) vals p = p @ vals"
  by (induction vals arbitrary: p) simp_all

lemma length_slice_last: "length (slice_last n xs) \<le> n"
  by (simp add: slice_last_def)

lemma length_slice_last_full: "n \<le> length xs \<Longrightarrow> length (slice_last n xs) = n"
  by (simp add: slice_last_def)

lemma slice_last_is_tail: "\<exists>older. xs = older @ slice_last n xs"
proof
  show "xs = take (length xs - n) xs @ slice_last n xs"
    by (simp add: slice_last_def)
qed

lemma addEntropy_pool:
  "entropyPool (addEntropy vals s) =
     (if length (entropyPool s @ vals) > 5000
      then slice_last 2500 (entropyPool s @ vals)
      else entropyPool s @ vals)"
  by (simp add: addEntropy_def push_all Let_def)

lemma addEntropy_cap: "length (entropyPool (addEntropy vals s)) \<le> 5000"
proof -
  let ?pool = "entropyPool s @ vals"
  have "length (slice_last 2500 ?pool) \<le> 5000"
    using length_slice_last [of 2500 ?pool] by linarith
  then show ?thesis
    by (simp add: addEntropy_pool)
qed

lemma addEntropy_timers [simp]: "timerDeltas (addEntropy vals s) = timerDeltas s"
  by (simp add: addEntropy_def Let_def)

lemma collectTimerDelta_timers:
  "timerDeltas (collectTimerDelta fsub now d s) =
     (if length (timerDeltas s @ [fsub now (lastTimestamp s), d]) > 1000
      then slice_last 500 (timerDeltas s @ [fsub now (lastTimestamp s), d])
      else timerDeltas s @ [fsub now (lastTimestamp s), d])"
  by (simp add: collectTimerDelta_def Let_def)

lemma collectTimerDelta_cap: "length (timerDeltas (collectTimerDelta fsub now d s)) \<le> 1000"
proof -
  let ?deltas = "timerDeltas s @ [fsub now (lastTimestamp s), d]"
  have "length (slice_last 500 ?deltas) \<le> 1000"
    using length_slice_last [of 500 ?deltas] by linarith
  then show ?thesis
    by (simp add: collectTimerDelta_def Let_def)
qed

lemma collectTimerDelta_pool [simp]:
  "entropyPool (collectTimerDelta fsub now d s) = entropyPool s"
  by (simp add: collectTimerDelta_def Let_def)

lemma addEntropy_within: "within_caps s \<Longrightarrow> within_caps (addEntropy vals s)"
  by (simp add: within_caps_def addEntropy_cap)

lemma fold_addEntropy_within:
  "within_caps s \<Longrightarrow> within_caps (fold (\<lambda>t. addEntropy (f t)) ts s)"
  by (induction ts arbitrary: s) (simp_all add: addEntropy_within)

lemma collectTimerDelta_within: "within_caps s \<Longrightarrow> within_caps (collectTimerDelta fsub now d s)"
  by (simp add: within_caps_def collectTimerDelta_cap)

lemma within_caps_bump [simp]:
  "within_caps (bump_mouse w s) = within_caps s"
  "within_caps (bump_keyboard w s) = within_caps s"
  "within_caps (bump_touch w s) = within_caps s"
  "within_caps (bump_scroll w s) = within_caps s"
  "within_caps (bump_other w s) = within_caps s"
  by (simp_all add: within_caps_def bump_mouse_def bump_keyboard_def bump_touch_def
      bump_scroll_def bump_other_def)

lemma within_caps_handles [simp]:
  "within_caps (s\<lparr>rafId := r\<rparr>) = within_caps s"
  "within_caps (s\<lparr>timerId1 := r\<rparr>) = within_caps s"
  "within_caps (s\<lparr>timerId2 := r\<rparr>) = within_caps s"
  "within_caps (s\<lparr>isCollecting := b\<rparr>) = within_caps s"
  "within_caps (s\<lparr>listeners := l\<rparr>) = within_caps s"
  by (simp_all add: within_caps_def)

lemma deliver_within: "within_caps s \<Longrightarrow> within_caps (deliver fsub ev s)"
proof (cases ev)
  case (DeviceMotion now a r)
  then show "within_caps s \<Longrightarrow> within_caps (deliver fsub ev s)"
    by (cases a; cases "the a") (simp_all add: addEntropy_within)
qed (simp_all add: onMouseMove_def onMouseDown_def onKeyDown_def onTouchStart_def
      onTouchMove_def onScroll_def rafCollect_def intervalCollect_def recursiveTimeout_def
      addEntropy_within fold_addEntropy_within collectTimerDelta_within)

lemma perform_within: "within_caps s \<Longrightarrow> within_caps (perform fsub a s)"
  by (cases a)
     (simp_all add: deliver_within startCollecting_def startTimerJitter_def stopCollecting_def
        stopTimerJitter_def Let_def, simp_all add: within_caps_def clearEntropy_def)

lemma session_within: "within_caps s \<Longrightarrow> within_caps (session fsub acts s)"
  unfolding session_def
  by (induction acts arbitrary: s) (simp_all add: perform_within)

text \<open>
  Claim C6.  After \<open>_addEntropy\<close> the behavioral pool holds at most 5000 values, and
  after \<open>_collectTimerDelta\<close> the timer pool holds at most 1000.  When the push makes
  the pool overflow, what is kept is exactly its last 2500 (respectively 500) values, in
  order, the most recently recorded ones.  Both bounds hold in every state an instance
  built by the constructor can reach through events, timer callbacks, start, stop and
  clear.
\<close>

theorem pool_caps:
  "length (entropyPool (addEntropy vals s)) \<le> 5000 \<and>
   (if length (entropyPool s @ vals) > 5000
    then entropyPool (addEntropy vals s) = slice_last 2500 (entropyPool s @ vals) \<and>
         length (entropyPool (addEntropy vals s)) = 2500 \<and>
         (\<exists>older. entropyPool s @ vals = older @ entropyPool (addEntropy vals s))
    else entropyPool (addEntropy vals s) = entropyPool s @ vals) \<and>
   length (timerDeltas (collectTimerDelta fsub now dateNow s)) \<le> 1000 \<and>
   (if length (timerDeltas s) + 2 > 1000
    then timerDeltas (collectTimerDelta fsub now dateNow s) =
           slice_last 500 (timerDeltas s @ [fsub now (lastTimestamp s), dateNow]) \<and>
         length (timerDeltas (collectTimerDelta fsub now dateNow s)) = 500 \<and>
         (\<exists>older. timerDeltas s @ [fsub now (lastTimestamp s), dateNow] =
                   older @ timerDeltas (collectTimerDelta fsub now dateNow s))
    else timerDeltas (collectTimerDelta fsub now dateNow s) =
           timerDeltas s @ [fsub now (lastTimestamp s), dateNow]) \<and>
   (case constructor builtin opts h of
      Inl e \<Rightarrow> False
    | Inr (s0, warnings) \<Rightarrow>
        length (entropyPool (session fsub acts s0)) \<le> 5000 \<and>
        length (timerDeltas (session fsub acts s0)) \<le> 1000)"
proof -
  have pool: "(if length (entropyPool s @ vals) > 5000
    then entropyPool (addEntropy vals s) = slice_last 2500 (entropyPool s @ vals) \<and>
         length (entropyPool (addEntropy vals s)) = 2500 \<and>
         (\<exists>older. entropyPool s @ vals = older @ entropyPool (addEntropy vals s))
    else entropyPool (addEntropy vals s) = entropyPool s @ vals)"
  proof (cases "length (entropyPool s @ vals) > 5000")
    case True
    then have eq: "entropyPool (addEntropy vals s) = slice_last 2500 (entropyPool s @ vals)"
      by (simp only: addEntropy_pool if_True)
    have "2500 \<le> length (entropyPool s @ vals)"
      using True by linarith
    then have "length (slice_last 2500 (entropyPool s @ vals)) = 2500"
      by (rule length_slice_last_full)
    then show ?thesis
      using True eq slice_last_is_tail [of "entropyPool s @ vals" 2500] by simp
  next
    case False
    then show ?thesis
      by (simp only: addEntropy_pool if_False)
  qed
  let ?deltas = "timerDeltas s @ [fsub now (lastTimestamp s), dateNow]"
  have timers: "(if length (timerDeltas s) + 2 > 1000
    then timerDeltas (collectTimerDelta fsub now dateNow s) = slice_last 500 ?deltas \<and>
         length (timerDeltas (collectTimerDelta fsub now dateNow s)) = 500 \<and>
         (\<exists>older. ?deltas = older @ timerDeltas (collectTimerDelta fsub now dateNow s))
    else timerDeltas (collectTimerDelta fsub now dateNow s) = ?deltas)"
  proof (cases "length (timerDeltas s) + 2 > 1000")
    case True
    then have big: "length ?deltas > 1000" by simp
    then have eq: "timerDeltas (collectTimerDelta fsub now dateNow s) = slice_last 500 ?deltas"
      by (simp only: collectTimerDelta_timers if_True)
    have "500 \<le> length ?deltas"
      using big by linarith
    then have "length (slice_last 500 ?deltas) = 500"
      by (rule length_slice_last_full)
    then show ?thesis
      using True eq slice_last_is_tail [of ?deltas 500] by simp
  next
    case False
    then have "\<not> length ?deltas > 1000" by simp
    then have "timerDeltas (collectTimerDelta fsub now dateNow s) = ?deltas"
      by (simp only: collectTimerDelta_timers if_False)
    then show ?thesis
      using False by simp
  qed
  obtain s0 where s0: "constructor builtin opts h =
      Inr (s0, if opt_minEvents opts = None \<or> opt_minEvents opts = Some 500
               then [] else [override_warning])"
    and empty: "entropyPool s0 = []" "timerDeltas s0 = []"
    using constructor_builtin [of opts h] by blast
  have "within_caps s0"
    using empty by (simp add: within_caps_def)
  then have "within_caps (session fsub acts s0)"
    by (rule session_within)
  then have reach: "(case constructor builtin opts h of
      Inl e \<Rightarrow> False
    | Inr (s0, warnings) \<Rightarrow>
        length (entropyPool (session fsub acts s0)) \<le> 5000 \<and>
        length (timerDeltas (session fsub acts s0)) \<le> 1000)"
    by (simp add: s0 within_caps_def)
  show ?thesis
    using addEntropy_cap [of vals s] pool collectTimerDelta_cap [of fsub now dateNow s]
      timers reach
    by (intro conjI)
qed

section \<open>Weighted event counting\<close>

lemma eventCount_addEntropy [simp]: "eventCount (addEntropy vals s) = eventCount s"
  by (simp add: addEntropy_def Let_def)

lemma eventCount_fold_addEntropy [simp]:
  "eventCount (fold (\<lambda>t. addEntropy (f t)) ts s) = eventCount s"
  by (induction ts arbitrary: s) simp_all

lemma eventCount_collectTimerDelta [simp]:
  "eventCount (collectTimerDelta fsub now d s) = eventCount s"
  by (simp add: collectTimerDelta_def Let_def)

lemma weighted_deliver:
  "getWeightedEventCount (deliver fsub ev s) = getWeightedEventCount s + weighted_sum [ev]"
proof (cases ev)
  case (DeviceMotion now a r)
  then show ?thesis
    by (cases a; cases "the a")
       (simp_all add: getWeightedEventCount_def weighted_sum_def occurrences_def bump_other_def)
qed (simp_all add: getWeightedEventCount_def weighted_sum_def occurrences_def
      onMouseMove_def onMouseDown_def onKeyDown_def onTouchStart_def onTouchMove_def
      onScroll_def rafCollect_def intervalCollect_def recursiveTimeout_def
      bump_mouse_def bump_keyboard_def bump_touch_def bump_scroll_def)

lemma weighted_sum_Cons: "weighted_sum (ev # evs) = weighted_sum [ev] + weighted_sum evs"
  by (simp add: weighted_sum_def occurrences_def)

lemma weighted_run:
  "getWeightedEventCount (run fsub evs s) = getWeightedEventCount s + weighted_sum evs"
proof (induction evs arbitrary: s)
  case Nil
  show ?case by (simp add: run_def weighted_sum_def occurrences_def)
next
  case (Cons ev evs)
  have "getWeightedEventCount (run fsub (ev # evs) s) =
        getWeightedEventCount (run fsub evs (deliver fsub ev s))"
    by (simp add: run_def)
  also have "\<dots> = getWeightedEventCount (deliver fsub ev s) + weighted_sum evs"
    by (rule Cons.IH)
  also have "\<dots> = getWeightedEventCount s + weighted_sum (ev # evs)"
    by (simp add: weighted_deliver weighted_sum_Cons [of ev evs])
  finally show ?case .
qed

lemma weighted_sum_tally:
  "tally evs = [k, md, ts, dm, mm, tm, sc] \<Longrightarrow>
   weighted_sum evs = k * 3 + (md + ts + dm) * 2 + (mm + tm + sc) * 1"
  by (simp add: tally_def weighted_sum_def)

lemma getWeighted_zero: "eventCount s = zero_counters \<Longrightarrow> getWeightedEventCount s = 0"
  by (simp add: getWeightedEventCount_def zero_counters_def)

lemma occurrences_append [simp]:
  "occurrences kind (xs @ ys) = occurrences kind xs + occurrences kind ys"
  by (simp add: occurrences_def)

lemma occurrences_replicate [simp]:
  "occurrences kind (replicate n ev) = (if kind ev then n else 0)"
  by (simp add: occurrences_def)

text \<open>
  Claim C3.  Starting from any state, after any sequence of delivered events the weighted
  total has grown by the sum over the categories of occurrence count times weight, with
  weight 3 for keydown, 2 for mousedown, touchstart and (recorded) devicemotion, and 1 for
  mousemove, touchmove and scroll.  From zero counters, 100 key, 100 press and 100 move
  events give 600, and 500 key events give a progress of 1500 events, 100 percent, ready.
\<close>

theorem weighted_total:
  "getWeightedEventCount (run fsub evs s) =
     getWeightedEventCount s +
     (occurrences is_keydown evs * 3 +
      (occurrences is_mousedown evs + occurrences is_touchstart evs +
       occurrences is_devicemotion evs) * 2 +
      (occurrences is_mousemove evs + occurrences is_touchmove evs +
       occurrences is_scroll evs) * 1) \<and>
   (eventCount s = zero_counters \<and> tally evs = [100, 100, 0, 0, 100, 0, 0] \<longrightarrow>
      getWeightedEventCount (run fsub evs s) = 600) \<and>
   (eventCount s = zero_counters \<and> tally evs = [500, 0, 0, 0, 0, 0, 0] \<longrightarrow>
      getProgress (run fsub evs s) =
        \<lparr>currentEvents = 1500, requiredEvents = 500, percentage = 100, ready = True\<rparr>)"
proof (intro conjI impI)
  show "getWeightedEventCount (run fsub evs s) =
     getWeightedEventCount s +
     (occurrences is_keydown evs * 3 +
      (occurrences is_mousedown evs + occurrences is_touchstart evs +
       occurrences is_devicemotion evs) * 2 +
      (occurrences is_mousemove evs + occurrences is_touchmove evs +
       occurrences is_scroll evs) * 1)"
    using weighted_run [of fsub evs s] by (simp only: weighted_sum_def)
next
  assume a: "eventCount s = zero_counters \<and> tally evs = [100, 100, 0, 0, 100, 0, 0]"
  then have "weighted_sum evs = 600"
    using weighted_sum_tally [of evs 100 100 0 0 100 0 0] by simp
  then show "getWeightedEventCount (run fsub evs s) = 600"
    using a by (simp add: weighted_run getWeighted_zero)
next
  assume a: "eventCount s = zero_counters \<and> tally evs = [500, 0, 0, 0, 0, 0, 0]"
  then have "weighted_sum evs = 1500"
    using weighted_sum_tally [of evs 500 0 0 0 0 0 0] by simp
  then have "getWeightedEventCount (run fsub evs s) = 1500"
    using a by (simp add: weighted_run getWeighted_zero)
  then show "getProgress (run fsub evs s) =
        \<lparr>currentEvents = 1500, requiredEvents = 500, percentage = 100, ready = True\<rparr>"
    using percentage_cap [of 1500] by (simp add: getProgress_def)
qed

theorem weighted_total_witness:
  "getWeightedEventCount
     (run unused_fsub
        (replicate 100 (KeyDown 1 65 65 False) @ replicate 100 (MouseDown 2 10 20 0 1) @
         replicate 100 (MouseMove 3 10 20 None None 30 40))
        idle_instance) = 600 \<and>
   getProgress (run unused_fsub (replicate 500 (KeyDown 1 65 65 False)) idle_instance) =
     \<lparr>currentEvents = 1500, requiredEvents = 500, percentage = 100, ready = True\<rparr>"
  using
    weighted_total [of unused_fsub
        "replicate 100 (KeyDown 1 65 65 False) @ replicate 100 (MouseDown 2 10 20 0 1) @
         replicate 100 (MouseMove 3 10 20 None None 30 40)" idle_instance]
    weighted_total [of unused_fsub "replicate 500 (KeyDown 1 65 65 False)" idle_instance]
  by (simp add: tally_def idle_instance_def)

section \<open>Serialization and combined entropy\<close>

lemma length_float64_bytes [simp]: "length (float64_bytes w) = 8"
  by (simp add: float64_bytes_def)

lemma length_concat_float64 [simp]:
  "length (concat (map float64_bytes xs)) = length xs * 8"
  by (induction xs) simp_all

lemma setFloat64_next:
  assumes "length pre = offset"
  shows "setFloat64 (pre @ replicate 8 0 @ rest) offset w = pre @ float64_bytes w @ rest"
  using assms by (simp add: setFloat64_def write_at_def)

lemma serialize_loop_inv:
  "i \<le> length floatArray \<Longrightarrow>
   serialize_loop floatArray i
     (concat (map float64_bytes (take i floatArray)) @ replicate ((length floatArray - i) * 8) 0) =
   concat (map float64_bytes floatArray)"
proof (induction "length floatArray - i" arbitrary: i)
  case 0
  then have "i = length floatArray" by simp
  then show ?case
    by (simp add: serialize_loop.simps [of floatArray "length floatArray"])
next
  case (Suc k)
  then have lt: "i < length floatArray" and k: "k = length floatArray - (i + 1)"
    by simp_all
  let ?done = "concat (map float64_bytes (take i floatArray))"
  let ?rest = "replicate ((length floatArray - (i + 1)) * 8) (0::byte)"
  have len: "length ?done = i * 8"
    using lt by simp
  have split: "replicate ((length floatArray - i) * 8) (0::byte) = replicate 8 0 @ ?rest"
  proof -
    have "(length floatArray - i) * 8 = 8 + (length floatArray - (i + 1)) * 8"
      using lt by simp
    then show ?thesis
      by (simp only: replicate_add)
  qed
  have tk: "take (i + 1) floatArray = take i floatArray @ [floatArray ! i]"
    using lt by (simp add: take_Suc_conv_app_nth)
  have step: "setFloat64 (?done @ replicate ((length floatArray - i) * 8) 0) (i * 8)
                (floatArray ! i) =
              concat (map float64_bytes (take (i + 1) floatArray)) @ ?rest"
    unfolding split tk using setFloat64_next [OF len] by simp
  have "serialize_loop floatArray i (?done @ replicate ((length floatArray - i) * 8) 0) =
        serialize_loop floatArray (i + 1)
          (setFloat64 (?done @ replicate ((length floatArray - i) * 8) 0) (i * 8)
             (floatArray ! i))"
    using lt by (simp only: serialize_loop.simps [of floatArray i] if_True)
  also have "\<dots> = serialize_loop floatArray (i + 1)
                     (concat (map float64_bytes (take (i + 1) floatArray)) @ ?rest)"
    by (simp only: step)
  also have "\<dots> = concat (map float64_bytes floatArray)"
    using lt by (intro Suc.hyps(1) [OF k]) simp
  finally show ?case .
qed

lemma serializeFloats_concat: "serializeFloats floatArray = concat (map float64_bytes floatArray)"
  using serialize_loop_inv [of 0 floatArray] by (simp add: serializeFloats_def)

lemma write_three:
  "write_at (write_at (write_at (replicate (length a + length b + length c) z) 0 a) (length a) b)
     (length a + length b) c = a @ b @ c"
  by (simp add: write_at_def)

lemma combineEntropy_concat:
  "combineEntropy dg s salt =
     dg SHA_256 (serializeFloats (entropyPool s)) @
     dg SHA_256 (serializeFloats (timerDeltas s)) @ salt"
  by (simp add: combineEntropy_def Let_def write_three)

lemma byte_bit:
  "bit (ucast (ucast (drop_bit k (w::float64)) :: byte) :: float64) n \<longleftrightarrow> n < 8 \<and> bit w (k + n)"
  by (auto simp add: bit_simps)

lemma decode_float64_bytes: "decode_be (float64_bytes w) = w"
proof (rule bit_word_eqI)
  fix n :: nat
  assume n: "n < LENGTH(64)"
  have b0: "bit (ucast (ucast w :: byte) :: float64) n \<longleftrightarrow> n < 8 \<and> bit w n"
    using byte_bit [of 0 w n] by simp
  show "bit (decode_be (float64_bytes w)) n \<longleftrightarrow> bit w n"
    using n
    apply (simp add: decode_be_def float64_bytes_def bit_or_iff bit_push_bit_iff byte_bit b0)
    apply (cases "n < 8"; cases "n < 16"; cases "n < 24"; cases "n < 32"; cases "n < 40";
           cases "n < 48"; cases "n < 56"; simp)
          apply (auto simp add: less_diff_conv2)
    done
qed

text \<open>
  Claim C5.  \<open>combineEntropy(salt)\<close> is the 256-bit digest of the serialized behavioral
  pool, followed by the 256-bit digest of the serialized timer pool, followed by the salt.
  Serializing N numbers gives N times 8 bytes: the binary64 encoding of each number, most
  significant byte first, in sequence order; no numbers give no bytes.  Both results are
  functions of the pools, the salt and the digest alone.
\<close>

theorem combineEntropy_layout:
  "combineEntropy dg s salt =
     dg SHA_256 (serializeFloats (entropyPool s)) @
     dg SHA_256 (serializeFloats (timerDeltas s)) @ salt \<and>
   serializeFloats floatArray = concat (map float64_bytes floatArray) \<and>
   length (serializeFloats floatArray) = length floatArray * 8 \<and>
   serializeFloats [] = [] \<and>
   length (float64_bytes w) = 8 \<and>
   decode_be (float64_bytes w) = w \<and>
   float64_bytes 0x3FF0000000000000 = [0x3F, 0xF0, 0, 0, 0, 0, 0, 0] \<and>
   serializeFloats [0x0102030405060708, 0x1112131415161718] =
     [0x01, 0x02, 0x03, 0x04, 0x05, 0x06, 0x07, 0x08,
      0x11, 0x12, 0x13, 0x14, 0x15, 0x16, 0x17, 0x18]"
proof (intro conjI)
  show "float64_bytes 0x3FF0000000000000 = [0x3F, 0xF0, 0, 0, 0, 0, 0, 0]"
    by (simp add: float64_bytes_def)
  show "serializeFloats [0x0102030405060708, 0x1112131415161718] =
     [0x01, 0x02, 0x03, 0x04, 0x05, 0x06, 0x07, 0x08,
      0x11, 0x12, 0x13, 0x14, 0x15, 0x16, 0x17, 0x18]"
    by (simp add: serializeFloats_concat float64_bytes_def)
qed (simp_all add: combineEntropy_concat serializeFloats_concat decode_float64_bytes)

section \<open>Iterative hashing\<close>

lemma batch_boundary:
  "(i + 1) div 100 = (if (i + 1) mod 100 = 0 then i div 100 + 1 else i div (100::nat))"
proof (cases "(i + 1) mod 100 = 0")
  case True
  then obtain k where k: "i + 1 = 100 * k"
    by (auto simp: mod_eq_0_iff_dvd)
  then have "k > 0" by (cases k) simp_all
  then have "i = 100 * (k - 1) + 99" using k by simp
  then have "i div 100 = k - 1" by simp
  moreover have "(i + 1) div 100 = k" using k by simp
  ultimately show ?thesis using True \<open>k > 0\<close> by simp
next
  case False
  have "Suc i div 100 = i div 100"
    using False by (simp add: div_Suc)
  then show ?thesis using False by simp
qed

lemma yields_step:
  fixes y a b n :: nat
  assumes "b = (if z then a + 1 else a)" and "b \<le> n"
  shows "(if z then y + 1 else y) + (n - b) = y + (n - a)"
  using assms by (cases z) simp_all

lemma loop_fst:
  "fst (iterativeHash_loop dg alg iters i (hash, yields)) =
   iterativeHash_loop_v121 dg alg iters i hash"
proof (induction dg alg iters i "(hash, yields)" arbitrary: hash yields
    rule: iterativeHash_loop.induct)
  case (1 dg alg iters i hash yields)
  show ?case
  proof (cases "i < iters")
    case True
    then show ?thesis
      using "1" by (simp add: iterativeHash_loop.simps [of dg alg iters i]
          iterativeHash_loop_v121.simps [of dg alg iters i])
  next
    case False
    then show ?thesis
      by (simp add: iterativeHash_loop.simps [of dg alg iters i]
          iterativeHash_loop_v121.simps [of dg alg iters i])
  qed
qed

lemma loop_snd:
  "i \<le> iters \<Longrightarrow>
   snd (iterativeHash_loop dg alg iters i (hash, yields)) =
   yields + (iters div 100 - i div 100)"
proof (induction dg alg iters i "(hash, yields)" arbitrary: hash yields
    rule: iterativeHash_loop.induct)
  case (1 dg alg iters i hash yields)
  show ?case
  proof (cases "i < iters")
    case True
    have le: "(i + 1) div 100 \<le> iters div 100"
      using True by (intro div_le_mono) simp
    have "snd (iterativeHash_loop dg alg iters i (hash, yields)) =
          snd (iterativeHash_loop dg alg iters (i + 1)
             (dg alg hash, (if (i + 1) mod 100 = 0 then yields + 1 else yields)))"
      using True by (simp only: iterativeHash_loop.simps [of dg alg iters i] if_True)
    also have "\<dots> = (if (i + 1) mod 100 = 0 then yields + 1 else yields) +
                     (iters div 100 - (i + 1) div 100)"
      using True by (intro "1.hyps") simp_all
    also have "\<dots> = yields + (iters div 100 - i div 100)"
      by (rule yields_step [OF batch_boundary le])
    finally show ?thesis .
  next
    case False
    have "iterativeHash_loop dg alg iters i (hash, yields) = (hash, yields)"
      using False by (simp only: iterativeHash_loop.simps [of dg alg iters i] if_False)
    moreover have "i = iters" using False "1.prems" by simp
    ultimately show ?thesis by simp
  qed
qed

lemma unbatched_funpow:
  "iterativeHash_loop_v121 dg alg iters i hash = ((dg alg) ^^ (iters - i)) hash"
proof (induction dg alg iters i hash rule: iterativeHash_loop_v121.induct)
  case (1 dg alg iters i hash)
  show ?case
  proof (cases "i < iters")
    case True
    then have "iters - i = Suc (iters - (i + 1))" by simp
    then show ?thesis
      using "1" True
      by (simp add: iterativeHash_loop_v121.simps [of dg alg iters i] funpow_swap1)
  next
    case False
    then show ?thesis
      by (simp add: iterativeHash_loop_v121.simps [of dg alg iters i])
  qed
qed

text \<open>
  Claim C7.  For every input block, algorithm and iteration count the batched loop of
  v1.3.0 returns the same bytes as the unbatched loop of v1.2.1, namely the digest applied
  \<open>iterations\<close> times; the batching only adds one yield per 100 completed rounds.
\<close>

theorem batching_preserves_hash:
  "fst (iterativeHash dg data alg iters) = iterativeHash_v121 dg data alg iters \<and>
   snd (iterativeHash dg data alg iters) = iters div 100 \<and>
   iterativeHash_v121 dg data alg iters = ((dg alg) ^^ iters) data"
  using loop_snd [of 0 iters dg alg data 0]
  by (simp add: iterativeHash_def iterativeHash_v121_def loop_fst unbatched_funpow)

section \<open>The baseline after any calls\<close>

text \<open>
  Claim C9.  After any sequence of calls on a \<open>cgRNDV\<close> instance,
  \<open>hasMinimumEntropy()\<close> returns true, \<open>generateSeed\<close> with either flag returns the
  next 64 bytes of the hardware random source, \<open>startCollecting\<close> and \<open>stopCollecting\<close>
  change nothing but the flag, and \<open>getStats()\<close> reports zero total events, zero pool
  sizes and sufficient entropy.
\<close>

theorem baseline_behaviour:
  "(case cg_calls calls (cg_constructor opts, rng) of
      (s, r) \<Rightarrow>
        cg_hasMinimumEntropy s = True \<and>
        cg_generateSeed s skipValidation r = Inr (map r [0..<64], (\<lambda>i. r (i + 64))) \<and>
        (\<exists>seed r'. cg_generateSeed s skipValidation r = Inr (seed, r') \<and>
           length seed = 64) \<and>
        cg_startCollecting s = s\<lparr>isCollecting := True\<rparr> \<and>
        cg_stopCollecting s = s\<lparr>isCollecting := False\<rparr> \<and>
        st_totalEvents (cg_getStats s) = 0 \<and>
        st_entropyPoolSize (cg_getStats s) = 0 \<and>
        st_timerDeltasSize (cg_getStats s) = 0 \<and>
        st_hasMinimumEntropy (cg_getStats s) = True)"
  by (simp add: cg_hasMinimumEntropy_def cg_generateSeed_def getRandomValues_def
      cg_startCollecting_def cg_stopCollecting_def cg_getStats_def split: prod.splits)

end
